theory Spec2Isabelle
  imports Complex_Main "HOL-Library.AList" "HOL-Library.List_Lexorder" "HOL-Library.Char_ord"
begin

section \<open>SpaceNet Rio chip classification data preparation\<close>

text \<open>
  A shallow embedding of the notebook
  \<^verbatim>\<open>notebooks/spacenet/SpaceNet - Rio - Chip Classification Data Prep.ipynb\<close>.
  Every code cell becomes one function; the notebook's global variables are passed
  explicitly. Conventions:
  \<^item> a Python \<^verbatim>\<open>dict\<close> is an association list with distinct keys, in insertion
    order; \<^verbatim>\<open>d[k] = v\<close> is \<open>AList.update k v d\<close> (an existing key keeps its
    place, a new key goes to the end), \<^verbatim>\<open>d[k]\<close> is \<open>getitem d k\<close>, which raises
    \<open>KeyError\<close> on a missing key, and iterating over \<open>d\<close> walks \<open>map fst d\<close>;
  \<^item> a Python \<^verbatim>\<open>float\<close> is an IEEE 754 double, kept as the \<open>real\<close> it denotes:
    \<^verbatim>\<open>+\<close> and \<^verbatim>\<open>/\<close> round the exact result to the nearest double, ties to
    even (\<open>fadd\<close>, \<open>fdiv\<close>), comparisons are exact, and dividing by zero raises
    \<open>ZeroDivisionError\<close>;
  \<^item> the geometry library (shapely) and the raster reader (rasterio) are not code of the
    notebook: their operations are parameters of the model, and so is the list of image
    URIs that the S3 listing returns;
  \<^item> the label file is a well-formed GeoJSON feature collection: it has a \<open>crs\<close> and
    a list of features, and every feature has a geometry and a property dictionary.

  The notebook's metadata names Python 3.5, where the order in which a dictionary is
  walked is not fixed by the language; insertion order is what Python guarantees from
  3.7 on. No property below depends on the order in which \<open>image_to_extents\<close> is walked
  except through the list \<open>intersecting_images\<close> that results from it.
\<close>

subsection \<open>Data\<close>

datatype error = KeyError | ZeroDivisionError

type_synonym point = "real \<times> real"

text \<open>The shapely operations the notebook calls, over JSON geometries \<open>'j\<close> and shapes \<open>'g\<close>.\<close>

record ('j, 'g) shapely =
  Polygon :: "point list \<Rightarrow> 'g"
  shape :: "'j \<Rightarrow> 'g"
  intersects :: "'g \<Rightarrow> 'g \<Rightarrow> bool"
  intersection :: "'g \<Rightarrow> 'g \<Rightarrow> 'g"
  area :: "'g \<Rightarrow> real"

text \<open>What \<^verbatim>\<open>ds.bounds\<close> of an opened raster gives.\<close>

record bounds =
  left :: real
  bottom :: real
  right :: real
  top_b :: real

datatype json =
  JNull | JBool bool | JInt int | JFloat real | JStr string
  | JArr "json list" | JObj "(string \<times> json) list"

text \<open>
  A GeoJSON feature, as far as the notebook reads or writes it: its geometry and its
  property dictionary. A feature collection is the label file (\<^verbatim>\<open>label_js\<close>) and also
  each per-image object \<^verbatim>\<open>fc\<close>.
\<close>

record 'j feature =
  geometry :: 'j
  properties :: "(string \<times> json) list"

record 'j feature_collection =
  type :: string
  crs :: json
  features :: "'j feature list"

record 'j outputs =
  label_files :: "string \<rightharpoonup> 'j feature_collection"
  training_scenes_csv :: string
  val_scenes_csv :: string

subsection \<open>Dictionaries and paths\<close>

definition getitem :: "('k \<times> 'v) list \<Rightarrow> 'k \<Rightarrow> error + 'v" where
  "getitem d k = (case map_of d k of None \<Rightarrow> Inl KeyError | Some v \<Rightarrow> Inr v)"

text \<open>\<^verbatim>\<open>os.path.basename\<close> (posix): what follows the last slash.\<close>

definition basename :: "string \<Rightarrow> string" where
  "basename p = rev (takeWhile (\<lambda>c. c \<noteq> CHR ''/'') (rev p))"

text \<open>
  \<^verbatim>\<open>os.path.splitext\<close> (posix): the extension starts at the last dot of the last
  path component, unless only dots come before it in that component.
\<close>

definition splitext :: "string \<Rightarrow> string \<times> string" where
  "splitext p =
     (let base = basename p;
          ext = rev (takeWhile (\<lambda>c. c \<noteq> CHR ''.'') (rev base));
          stem = take (length base - length ext - 1) base
      in if CHR ''.'' \<in> set base \<and> (\<exists>c \<in> set stem. c \<noteq> CHR ''.'')
         then (take (length p - length ext - 1) p, CHR ''.'' # ext)
         else (p, []))"

text \<open>\<^verbatim>\<open>os.path.join\<close> (posix) of two components.\<close>

definition path_join :: "string \<Rightarrow> string \<Rightarrow> string" where
  "path_join a b =
     (if b \<noteq> [] \<and> hd b = CHR ''/'' then b
      else if a = [] \<or> last a = CHR ''/'' then a @ b
      else a @ ''/'' @ b)"

text \<open>\<^verbatim>\<open>sep.join(rows)\<close>.\<close>

fun join :: "string \<Rightarrow> string list \<Rightarrow> string" where
  "join sep [] = []"
| "join sep [x] = x"
| "join sep (x # y # ys) = x @ sep @ join sep (y # ys)"

subsection \<open>Python floats\<close>

text \<open>
  A double has 53 significant bits and a binary exponent from \<open>-1022\<close> to \<open>1023\<close>.
  For a positive \<open>x\<close>, \<open>expo x\<close> is the exponent \<open>e\<close> with \<open>2\<^sup>e \<le> x < 2\<^sup>e\<^sup>+\<^sup>1\<close>,
  found by stepping up from \<open>0\<close> or down from \<open>-1\<close>. It stops at \<open>-1022\<close>, so that
  the subnormal numbers share the spacing of the smallest normal ones, and at \<open>1024\<close>:
  Python gives \<^verbatim>\<open>inf\<close> from there on, which the model does not have. A quotient of
  the area of a part of the region by the area of the region, and a sum of a few such
  quotients, stay far below.
\<close>

function expo_up :: "real \<Rightarrow> int \<Rightarrow> int" where
  "expo_up x e = (if 1024 \<le> e \<or> x < 2 powi (e + 1) then e else expo_up x (e + 1))"
  by pat_completeness auto
termination
  by (relation "measure (\<lambda>(x, e). nat (1024 - e))") auto

function expo_down :: "real \<Rightarrow> int \<Rightarrow> int" where
  "expo_down x e = (if e \<le> - 1022 \<or> 2 powi e \<le> x then e else expo_down x (e - 1))"
  by pat_completeness auto
termination
  by (relation "measure (\<lambda>(x, e). nat (e + 1022))") auto

declare expo_up.simps [simp del] expo_down.simps [simp del]

definition expo :: "real \<Rightarrow> int" where
  "expo x = (if 1 \<le> x then expo_up x 0 else expo_down x (- 1))"

text \<open>Rounding to the nearest integer, a tie going to the even one.\<close>

definition round_half_even :: "real \<Rightarrow> int" where
  "round_half_even t =
     (if t - of_int \<lfloor>t\<rfloor> < 1 / 2 then \<lfloor>t\<rfloor>
      else if 1 / 2 < t - of_int \<lfloor>t\<rfloor> then \<lfloor>t\<rfloor> + 1
      else if even \<lfloor>t\<rfloor> then \<lfloor>t\<rfloor> else \<lfloor>t\<rfloor> + 1)"

text \<open>
  The double nearest to a real: the real is rounded on the grid of spacing
  \<open>2\<^sup>e\<^sup>-\<^sup>5\<^sup>2\<close> of its own exponent \<open>e\<close>.
\<close>

definition rnd :: "real \<Rightarrow> real" where
  "rnd x =
     (if x = 0 then 0
      else sgn x * of_int (round_half_even (\<bar>x\<bar> / 2 powi (expo \<bar>x\<bar> - 52)))
             * 2 powi (expo \<bar>x\<bar> - 52))"

text \<open>Python's \<^verbatim>\<open>a + b\<close> and \<^verbatim>\<open>a / b\<close> (for \<open>b \<noteq> 0\<close>) on floats.\<close>

definition fadd :: "real \<Rightarrow> real \<Rightarrow> real" where
  "fadd a b = rnd (a + b)"

definition fdiv :: "real \<Rightarrow> real \<Rightarrow> real" where
  "fdiv a b = rnd (a / b)"

text \<open>The exponent range a positive real falls in; \<open>expo\<close> computes it.\<close>

definition in_binade :: "real \<Rightarrow> int \<Rightarrow> bool" where
  "in_binade x e \<longleftrightarrow>
     - 1022 \<le> e \<and> e \<le> 1024 \<and> (e = - 1022 \<or> 2 powi e \<le> x) \<and> (e = 1024 \<or> x < 2 powi (e + 1))"

subsection \<open>The notebook's constants\<close>

definition target_label_prefix :: string where
  "target_label_prefix = ''s3://raster-vision-spacenet/AOI_1_Rio/buildingLabels''"

definition processed_labels_dir :: string where
  "processed_labels_dir = ''/opt/data/spacenet/rio/processed_labels/''"

text \<open>The float that the literal \<^verbatim>\<open>0.8\<close> denotes.\<close>

definition ratio :: real where
  "ratio = rnd (4 / 5)"

subsection \<open>Image extents and the images that meet the AOI\<close>

definition bounds_to_shape :: "('j, 'g) shapely \<Rightarrow> bounds \<Rightarrow> 'g" where
  "bounds_to_shape G b =
     Polygon G [(left b, bottom b), (left b, top_b b), (right b, top_b b),
                (right b, bottom b), (left b, bottom b)]"

definition image_to_extents ::
  "('j, 'g) shapely \<Rightarrow> (string \<Rightarrow> bounds) \<Rightarrow> string list \<Rightarrow> (string \<times> 'g) list" where
  "image_to_extents G ds_bounds image_files =
     foldl (\<lambda>d img. AList.update img (bounds_to_shape G (ds_bounds img)) d) [] image_files"

fun intersecting_loop ::
  "('j, 'g) shapely \<Rightarrow> 'g \<Rightarrow> (string \<times> 'g) list \<Rightarrow> string list \<Rightarrow> string list
     \<Rightarrow> error + string list" where
  "intersecting_loop G aoi exts acc [] = Inr acc"
| "intersecting_loop G aoi exts acc (img # rest) =
     (case getitem exts img of
        Inl e \<Rightarrow> Inl e
      | Inr ext \<Rightarrow>
          intersecting_loop G aoi exts
            (if intersects G ext aoi then acc @ [img] else acc) rest)"

definition intersecting_images ::
  "('j, 'g) shapely \<Rightarrow> 'g \<Rightarrow> (string \<times> 'g) list \<Rightarrow> error + string list" where
  "intersecting_images G aoi exts = intersecting_loop G aoi exts [] (map fst exts)"

subsection \<open>Matching labels to images\<close>

definition add_class :: "'j feature \<Rightarrow> 'j feature" where
  "add_class feature =
     feature\<lparr>properties :=
       AList.update ''class_name'' (JStr ''building'')
         (AList.update ''class_id'' (JInt 1) (properties feature))\<rparr>"

definition add_classes :: "'j feature_collection \<Rightarrow> 'j feature_collection" where
  "add_classes label_js = label_js\<lparr>features := map add_class (features label_js)\<rparr>"

definition features_of_bbox ::
  "('j, 'g) shapely \<Rightarrow> 'g \<Rightarrow> 'j feature list \<Rightarrow> 'j feature list" where
  "features_of_bbox G bbox fs =
     foldl (\<lambda>acc feature.
              if intersects G (shape G (geometry feature)) bbox then acc @ [feature] else acc)
       [] fs"

fun image_to_features_loop ::
  "('j, 'g) shapely \<Rightarrow> (string \<times> 'g) list \<Rightarrow> 'j feature list
     \<Rightarrow> (string \<times> 'j feature list) list \<Rightarrow> string list
     \<Rightarrow> error + (string \<times> 'j feature list) list" where
  "image_to_features_loop G exts fs d [] = Inr d"
| "image_to_features_loop G exts fs d (img # rest) =
     (case getitem exts img of
        Inl e \<Rightarrow> Inl e
      | Inr bbox \<Rightarrow>
          image_to_features_loop G exts fs
            (AList.update img (features_of_bbox G bbox fs) d) rest)"

definition image_to_features ::
  "('j, 'g) shapely \<Rightarrow> (string \<times> 'g) list \<Rightarrow> 'j feature_collection \<Rightarrow> string list
     \<Rightarrow> error + (string \<times> 'j feature list) list" where
  "image_to_features G exts label_js imgs =
     image_to_features_loop G exts (features label_js) [] imgs"

subsection \<open>Writing one label file per image\<close>

definition label_name :: "string \<Rightarrow> string" where
  "label_name img = fst (splitext (basename img)) @ ''.geojson''"

definition label_file :: "string \<Rightarrow> string" where
  "label_file img = path_join processed_labels_dir (label_name img)"

definition make_fc :: "'j feature_collection \<Rightarrow> 'j feature list \<Rightarrow> 'j feature_collection" where
  "make_fc label_js fs = \<lparr>type = ''FeatureCollection'', crs = crs label_js, features = fs\<rparr>"

fun write_labels_loop ::
  "'j feature_collection \<Rightarrow> (string \<times> 'j feature list) list
     \<Rightarrow> (string \<rightharpoonup> 'j feature_collection) \<Rightarrow> string list
     \<Rightarrow> error + (string \<rightharpoonup> 'j feature_collection)" where
  "write_labels_loop label_js i2f files [] = Inr files"
| "write_labels_loop label_js i2f files (img # rest) =
     (case getitem i2f img of
        Inl e \<Rightarrow> Inl e
      | Inr fs \<Rightarrow>
          write_labels_loop label_js i2f
            (files(label_file img \<mapsto> make_fc label_js fs)) rest)"

definition write_labels ::
  "'j feature_collection \<Rightarrow> (string \<times> 'j feature list) list
     \<Rightarrow> error + (string \<rightharpoonup> 'j feature_collection)" where
  "write_labels label_js i2f = write_labels_loop label_js i2f Map.empty (map fst i2f)"

subsection \<open>Splitting into training and validation\<close>

fun images_to_area_loop ::
  "('j, 'g) shapely \<Rightarrow> 'g \<Rightarrow> (string \<times> 'g) list \<Rightarrow> (string \<times> real) list \<Rightarrow> string list
     \<Rightarrow> error + (string \<times> real) list" where
  "images_to_area_loop G aoi exts d [] = Inr d"
| "images_to_area_loop G aoi exts d (img # rest) =
     (case getitem exts img of
        Inl e \<Rightarrow> Inl e
      | Inr ext \<Rightarrow>
          (let a = area G (intersection G ext aoi)
           in if area G aoi = 0 then Inl ZeroDivisionError
              else images_to_area_loop G aoi exts
                     (AList.update img (fdiv a (area G aoi)) d) rest))"

definition images_to_area ::
  "('j, 'g) shapely \<Rightarrow> 'g \<Rightarrow> (string \<times> 'g) list \<Rightarrow> string list
     \<Rightarrow> error + (string \<times> real) list" where
  "images_to_area G aoi exts imgs = images_to_area_loop G aoi exts [] imgs"

text \<open>
  \<^verbatim>\<open>sorted(xs, reverse=True, key=k)\<close>: the keys are computed first, one call per
  element; the list is reversed, sorted by a stable ascending sort, and reversed again.
\<close>

fun with_keys :: "('a \<Rightarrow> error + real) \<Rightarrow> 'a list \<Rightarrow> error + (real \<times> 'a) list" where
  "with_keys k [] = Inr []"
| "with_keys k (x # xs) =
     (case k x of
        Inl e \<Rightarrow> Inl e
      | Inr v \<Rightarrow> (case with_keys k xs of Inl e \<Rightarrow> Inl e | Inr kxs \<Rightarrow> Inr ((v, x) # kxs)))"

definition sorted_reverse :: "('a \<Rightarrow> error + real) \<Rightarrow> 'a list \<Rightarrow> error + 'a list" where
  "sorted_reverse k xs =
     (case with_keys k xs of
        Inl e \<Rightarrow> Inl e
      | Inr kxs \<Rightarrow> Inr (map snd (rev (sort_key fst (rev kxs)))))"

fun split_loop ::
  "real \<Rightarrow> (string \<times> real) list \<Rightarrow> string list \<times> string list \<times> real \<Rightarrow> string list
     \<Rightarrow> error + string list \<times> string list \<times> real" where
  "split_loop r areas (train_imgs, val_imgs, train_area_covered) [] =
     Inr (train_imgs, val_imgs, train_area_covered)"
| "split_loop r areas (train_imgs, val_imgs, train_area_covered) (img # rest) =
     (if train_area_covered < r
      then (case getitem areas img of
              Inl e \<Rightarrow> Inl e
            | Inr a \<Rightarrow>
                split_loop r areas
                  (train_imgs @ [img], val_imgs, fadd train_area_covered a) rest)
      else split_loop r areas (train_imgs, val_imgs @ [img], train_area_covered) rest)"

text \<open>
  The split cell. The notebook sets \<^verbatim>\<open>ratio = 0.8\<close> in its first line; here the
  ratio is an argument, and \<open>run\<close> below passes \<open>ratio\<close>.
\<close>

definition split_train_val ::
  "('j, 'g) shapely \<Rightarrow> real \<Rightarrow> 'g \<Rightarrow> (string \<times> 'g) list \<Rightarrow> string list
     \<Rightarrow> error + string list \<times> string list \<times> real" where
  "split_train_val G r aoi exts imgs =
     (case images_to_area G aoi exts imgs of
        Inl e \<Rightarrow> Inl e
      | Inr areas \<Rightarrow>
          (case sorted_reverse (getitem areas) imgs of
             Inl e \<Rightarrow> Inl e
           | Inr sorted_imgs \<Rightarrow> split_loop r areas ([], [], 0) sorted_imgs))"

subsection \<open>The scene lists\<close>

definition labels_path :: "string \<Rightarrow> string" where
  "labels_path img = path_join target_label_prefix (label_name img)"

definition csv_row :: "string \<Rightarrow> string" where
  "csv_row img =
     [CHR 0x22] @ img @ [CHR 0x22] @ '','' @ [CHR 0x22] @ labels_path img @ [CHR 0x22]"

definition scenes_csv :: "string list \<Rightarrow> string" where
  "scenes_csv imgs = join [CHR 0x0A] (map csv_row imgs)"

subsection \<open>The whole notebook\<close>

definition run ::
  "('j, 'g) shapely \<Rightarrow> (string \<Rightarrow> bounds) \<Rightarrow> 'g \<Rightarrow> 'j feature_collection \<Rightarrow> string list
     \<Rightarrow> error + 'j outputs" where
  "run G ds_bounds aoi label_js image_files =
     (let exts = image_to_extents G ds_bounds image_files in
      case intersecting_images G aoi exts of
        Inl e \<Rightarrow> Inl e
      | Inr imgs \<Rightarrow>
          (let labelled = add_classes label_js in
           case image_to_features G exts labelled imgs of
             Inl e \<Rightarrow> Inl e
           | Inr i2f \<Rightarrow>
               (case write_labels labelled i2f of
                  Inl e \<Rightarrow> Inl e
                | Inr files \<Rightarrow>
                    (case split_train_val G ratio aoi exts imgs of
                       Inl e \<Rightarrow> Inl e
                     | Inr (train_imgs, val_imgs, train_area_covered) \<Rightarrow>
                         Inr \<lparr>label_files = files,
                              training_scenes_csv = scenes_csv train_imgs,
                              val_scenes_csv = scenes_csv val_imgs\<rparr>))))"


subsection \<open>The split as the specification words it\<close>

text \<open>
  The coverage fraction of a scene: the area of its bounding polygon inside the region,
  over the area of the region, as a float.
\<close>

definition coverage_fraction :: "('j, 'g) shapely \<Rightarrow> 'g \<Rightarrow> 'g \<Rightarrow> real" where
  "coverage_fraction G aoi ext = fdiv (area G (intersection G ext aoi)) (area G aoi)"

text \<open>
  The specification's walk over the sorted scenes, with \<open>accumulated\<close> starting at
  \<open>0\<close>: a scene goes to training, and its coverage is added, if \<open>accumulated < r\<close>
  before the scene is counted; otherwise it goes to validation. \<open>walk_training\<close>
  collects the first group and \<open>walk_validation\<close> the second. The numbers are floats,
  so adding is \<open>fadd\<close>.
\<close>

fun walk_training :: "real \<Rightarrow> ('a \<Rightarrow> real) \<Rightarrow> real \<Rightarrow> 'a list \<Rightarrow> 'a list" where
  "walk_training r cov accumulated [] = []"
| "walk_training r cov accumulated (s # ss) =
     (if accumulated < r then s # walk_training r cov (fadd accumulated (cov s)) ss
      else walk_training r cov accumulated ss)"

fun walk_validation :: "real \<Rightarrow> ('a \<Rightarrow> real) \<Rightarrow> real \<Rightarrow> 'a list \<Rightarrow> 'a list" where
  "walk_validation r cov accumulated [] = []"
| "walk_validation r cov accumulated (s # ss) =
     (if accumulated < r then walk_validation r cov (fadd accumulated (cov s)) ss
      else s # walk_validation r cov accumulated ss)"

subsection \<open>Axis-parallel boxes, for running the notebook on examples\<close>

text \<open>
  A small geometry to put in the place of shapely when the model is evaluated: every
  shape is the axis-parallel box around its points, \<open>None\<close> being the empty shape.
  Boxes are closed, as shapely's polygons are: two boxes that only touch do intersect,
  and their intersection has area \<open>0\<close>. The areas are exact. The examples use
  rectangles with sides parallel to the axes and small integer coordinates, where
  shapely's float computation is exact too and these are its own answers.
\<close>

type_synonym box = "real \<times> real \<times> real \<times> real"

fun box_of_points :: "point list \<Rightarrow> box option" where
  "box_of_points [] = None"
| "box_of_points ((x, y) # ps) =
     Some (foldl min x (map fst ps), foldl min y (map snd ps),
           foldl max x (map fst ps), foldl max y (map snd ps))"

fun box_intersects :: "box option \<Rightarrow> box option \<Rightarrow> bool" where
  "box_intersects (Some (l1, b1, r1, t1)) (Some (l2, b2, r2, t2)) =
     (l1 \<le> r2 \<and> l2 \<le> r1 \<and> b1 \<le> t2 \<and> b2 \<le> t1)"
| "box_intersects _ _ = False"

fun box_intersection :: "box option \<Rightarrow> box option \<Rightarrow> box option" where
  "box_intersection (Some (l1, b1, r1, t1)) (Some (l2, b2, r2, t2)) =
     (if l1 \<le> r2 \<and> l2 \<le> r1 \<and> b1 \<le> t2 \<and> b2 \<le> t1
      then Some (max l1 l2, max b1 b2, min r1 r2, min t1 t2) else None)"
| "box_intersection _ _ = None"

fun box_area :: "box option \<Rightarrow> real" where
  "box_area None = 0"
| "box_area (Some (l, b, r, t)) = (r - l) * (t - b)"

definition boxes :: "(point list, box option) shapely" where
  "boxes = \<lparr>Polygon = box_of_points, shape = box_of_points, intersects = box_intersects,
             intersection = box_intersection, area = box_area\<rparr>"

text \<open>
  The example region is the square from \<open>(0, 0)\<close> to \<open>(10, 10)\<close>, of area
  \<open>100\<close>; a scene is a vertical strip of it, or of the plane beside it. The raster
  reader of an example is a table from image names to bounds.
\<close>

definition region :: "box option" where
  "region = Some (0, 0, 10, 10)"

definition strip :: "real \<Rightarrow> real \<Rightarrow> bounds" where
  "strip l r = \<lparr>left = l, bottom = 0, right = r, top_b = 10\<rparr>"

definition bounds_table :: "(string \<times> bounds) list \<Rightarrow> string \<Rightarrow> bounds" where
  "bounds_table tbl img = (case map_of tbl img of Some b \<Rightarrow> b | None \<Rightarrow> strip 20 30)"

definition building :: "real \<Rightarrow> real \<Rightarrow> (string \<times> json) list \<Rightarrow> point list feature" where
  "building l r props =
     \<lparr>geometry = [(l, 1), (l, 2), (r, 2), (r, 1), (l, 1)], properties = props\<rparr>"

definition labels :: "point list feature list \<Rightarrow> point list feature_collection" where
  "labels fs = \<lparr>type = ''FeatureCollection'', crs = JStr ''EPSG:4326'', features = fs\<rparr>"

section \<open>Properties\<close>

subsection \<open>Rounding to a double\<close>

text \<open>
  Rounding a double gives it back, and rounding never crosses a double: these two
  facts are all that the properties of the split need from the arithmetic.
\<close>

lemma p2_pos: "0 < (2::real) powi e"
  by simp

lemma p2_mono: "a \<le> b \<Longrightarrow> (2::real) powi a \<le> 2 powi b"
  by (rule power_int_increasing) simp_all

lemma p2_52: "(2::real) powi (e - 52) * 2 ^ 52 = 2 powi e"
  using power_int_add [of "2::real" "e - 52" 52] by simp

lemma p2_53: "(2::real) powi (e - 52) * 2 ^ 53 = 2 powi (e + 1)"
  using power_int_add [of "2::real" "e - 52" 53] by (simp add: add.commute)

lemma expo_up_binade:
  "- 1022 \<le> e \<Longrightarrow> e \<le> 1024 \<Longrightarrow> 2 powi e \<le> x \<Longrightarrow> in_binade x (expo_up x e)"
proof (induction x e rule: expo_up.induct)
  case (1 x e)
  show ?case
  proof (cases "1024 \<le> e \<or> x < 2 powi (e + 1)")
    case True
    then have "expo_up x e = e" by (simp add: expo_up.simps)
    with True "1.prems" show ?thesis by (auto simp: in_binade_def)
  next
    case False
    then have eq: "expo_up x e = expo_up x (e + 1)" by (simp add: expo_up.simps)
    from False "1.prems" have "in_binade x (expo_up x (e + 1))"
      by (intro "1.IH") auto
    with eq show ?thesis by simp
  qed
qed

lemma expo_down_binade:
  "- 1022 \<le> e \<Longrightarrow> e \<le> 1024 \<Longrightarrow> x < 2 powi (e + 1) \<Longrightarrow> in_binade x (expo_down x e)"
proof (induction x e rule: expo_down.induct)
  case (1 x e)
  show ?case
  proof (cases "e \<le> - 1022 \<or> 2 powi e \<le> x")
    case True
    then have "expo_down x e = e" by (simp add: expo_down.simps)
    with True "1.prems" show ?thesis by (auto simp: in_binade_def)
  next
    case False
    then have eq: "expo_down x e = expo_down x (e - 1)" by (simp add: expo_down.simps)
    from False "1.prems" have "in_binade x (expo_down x (e - 1))"
      by (intro "1.IH") auto
    with eq show ?thesis by simp
  qed
qed

lemma expo_binade: "in_binade x (expo x)"
proof (cases "1 \<le> x")
  case True
  then show ?thesis
    using expo_up_binade [of 0 x] by (simp add: expo_def)
next
  case False
  then show ?thesis
    using expo_down_binade [of "- 1" x] by (simp add: expo_def)
qed

lemma binade_mono:
  assumes "in_binade x a" and "in_binade y b" and "x \<le> y"
  shows "a \<le> b"
proof (rule ccontr)
  assume "\<not> a \<le> b"
  then have ba: "b + 1 \<le> a" by simp
  with assms(1,2) have "b \<noteq> 1024" "a \<noteq> - 1022"
    by (auto simp: in_binade_def)
  with assms(1,2) have "y < 2 powi (b + 1)" "2 powi a \<le> x"
    by (auto simp: in_binade_def)
  moreover have "(2::real) powi (b + 1) \<le> 2 powi a"
    using ba by (rule p2_mono)
  ultimately show False using assms(3) by simp
qed

lemma binade_unique: "in_binade x a \<Longrightarrow> in_binade x b \<Longrightarrow> a = b"
  using binade_mono [of x a x b] binade_mono [of x b x a] by simp

lemma expo_eqI: "in_binade x e \<Longrightarrow> expo x = e"
  using expo_binade [of x] by (rule binade_unique)

lemma rhe_of_int: "round_half_even (of_int n) = n"
  by (simp add: round_half_even_def)

lemma rhe_ge: "of_int n \<le> t \<Longrightarrow> n \<le> round_half_even t"
proof -
  assume "of_int n \<le> t"
  then have "n \<le> \<lfloor>t\<rfloor>" by (simp add: le_floor_iff)
  then show ?thesis by (simp add: round_half_even_def)
qed

lemma rhe_le: "t \<le> of_int n \<Longrightarrow> round_half_even t \<le> n"
proof -
  assume t: "t \<le> of_int n"
  then have fl: "\<lfloor>t\<rfloor> \<le> n" by (simp add: floor_le_iff)
  show ?thesis
  proof (cases "\<lfloor>t\<rfloor> = n")
    case True
    with t have "t = of_int n" by linarith
    then show ?thesis by (simp add: rhe_of_int)
  next
    case False
    with fl have "\<lfloor>t\<rfloor> + 1 \<le> n" by simp
    then show ?thesis by (simp add: round_half_even_def)
  qed
qed

lemma rnd_pos: "0 < x \<Longrightarrow>
  rnd x = of_int (round_half_even (x / 2 powi (expo x - 52))) * 2 powi (expo x - 52)"
  by (simp add: rnd_def)

lemma rnd_minus: "rnd (- x) = - rnd x"
  by (simp add: rnd_def sgn_minus)

lemma rnd_nonneg: "0 \<le> x \<Longrightarrow> 0 \<le> rnd x"
proof (cases "x = 0")
  case True
  then show ?thesis by (simp add: rnd_def)
next
  case False
  assume "0 \<le> x"
  with False have x: "0 < x" by simp
  have "of_int 0 \<le> x / 2 powi (expo x - 52)"
    using x by simp
  then have "0 \<le> round_half_even (x / 2 powi (expo x - 52))"
    by (rule rhe_ge)
  then show ?thesis
    by (simp add: rnd_pos [OF x])
qed

lemma rnd_rnd_pos:
  assumes x: "0 < x"
  shows "rnd (rnd x) = rnd x"
proof -
  define e where "e = expo x"
  define q :: real where "q = 2 powi (e - 52)"
  define n where "n = round_half_even (x / q)"
  have q: "0 < q" by (simp add: q_def)
  have b: "in_binade x e" unfolding e_def by (rule expo_binade)
  have d: "rnd x = of_int n * q"
    unfolding n_def q_def e_def by (rule rnd_pos [OF x])
  have n0: "0 \<le> n"
    unfolding n_def using x q by (intro rhe_ge) simp
  have lo: "2 ^ 52 \<le> n" if "e \<noteq> - 1022"
  proof -
    from b that have "2 powi e \<le> x" by (auto simp: in_binade_def)
    then have "q * 2 ^ 52 \<le> x" using p2_52 [of e] by (simp add: q_def)
    then have "of_int (2 ^ 52) \<le> x / q" using q by (simp add: field_simps)
    then show ?thesis unfolding n_def by (rule rhe_ge)
  qed
  have hi: "n \<le> 2 ^ 53" if "e \<noteq> 1024"
  proof -
    from b that have "x < 2 powi (e + 1)" by (auto simp: in_binade_def)
    then have "x < q * 2 ^ 53" using p2_53 [of e] by (simp add: q_def)
    then have "x / q \<le> of_int (2 ^ 53)" using q by (simp add: field_simps)
    then show ?thesis unfolding n_def by (rule rhe_le)
  qed
  show ?thesis
  proof (cases "n = 0")
    case True
    with d show ?thesis by (simp add: rnd_def)
  next
    case False
    with n0 have n: "0 < n" by simp
    then have dpos: "0 < rnd x" using q by (simp add: d)
    show ?thesis
    proof (cases "e \<noteq> 1024 \<and> n = 2 ^ 53")
      case True
      then have dv: "rnd x = 2 powi (e + 1)"
        using p2_53 [of e] by (simp add: d q_def mult.commute)
      have "in_binade (rnd x) (e + 1)"
        using b True by (auto simp: in_binade_def dv intro!: power_int_strict_increasing)
      then have ex: "expo (rnd x) = e + 1" by (rule expo_eqI)
      have "rnd x / 2 powi (e + 1 - 52) = of_int (2 ^ 52)"
        using p2_52 [of "e + 1"] by (simp add: dv field_simps)
      then have "round_half_even (rnd x / 2 powi (e + 1 - 52)) = 2 ^ 52"
        by (simp only: rhe_of_int)
      then have "rnd (rnd x) = 2 ^ 52 * 2 powi (e + 1 - 52)"
        by (simp add: rnd_pos [OF dpos] ex)
      also have "\<dots> = rnd x"
        using p2_52 [of "e + 1"] by (simp add: dv mult.commute)
      finally show ?thesis .
    next
      case False
      have "in_binade (rnd x) e"
        unfolding in_binade_def
      proof (intro conjI)
        show "- 1022 \<le> e" "e \<le> 1024" using b by (auto simp: in_binade_def)
        show "e = - 1022 \<or> 2 powi e \<le> rnd x"
        proof (cases "e = - 1022")
          case True then show ?thesis by simp
        next
          case False
          from lo [OF this] have "(2::real) ^ 52 \<le> of_int n"
            by (metis of_int_le_iff of_int_numeral of_int_power)
          then have "q * 2 ^ 52 \<le> q * of_int n"
            using q by (intro mult_left_mono) simp_all
          moreover have "q * 2 ^ 52 = 2 powi e"
            unfolding q_def by (rule p2_52)
          moreover have "rnd x = q * of_int n"
            by (simp only: d mult.commute)
          ultimately have "2 powi e \<le> rnd x" by linarith
          then show ?thesis ..
        qed
        show "e = 1024 \<or> rnd x < 2 powi (e + 1)"
        proof (cases "e = 1024")
          case True then show ?thesis by simp
        next
          case e: False
          with hi False have "n < 2 ^ 53" by force
          then have "of_int n < (2::real) ^ 53"
            by (metis of_int_less_iff of_int_numeral of_int_power)
          then have "q * of_int n < q * 2 ^ 53"
            using q by (intro mult_strict_left_mono) simp_all
          moreover have "q * 2 ^ 53 = 2 powi (e + 1)"
            unfolding q_def by (rule p2_53)
          moreover have "rnd x = q * of_int n"
            by (simp only: d mult.commute)
          ultimately have "rnd x < 2 powi (e + 1)" by linarith
          then show ?thesis ..
        qed
      qed
      then have ex: "expo (rnd x) = e" by (rule expo_eqI)
      have "rnd x / 2 powi (e - 52) = of_int n"
        using q by (simp add: d q_def)
      then have r: "round_half_even (rnd x / 2 powi (e - 52)) = n"
        by (simp only: rhe_of_int)
      have "rnd (rnd x) =
              of_int (round_half_even (rnd x / 2 powi (expo (rnd x) - 52))) *
                2 powi (expo (rnd x) - 52)"
        by (rule rnd_pos [OF dpos])
      also have "\<dots> = of_int n * q"
        by (simp only: ex r q_def)
      also have "\<dots> = rnd x"
        by (simp only: d)
      finally show ?thesis .
    qed
  qed
qed

lemma rnd_rnd: "rnd (rnd x) = rnd x"
proof -
  consider "x = 0" | "0 < x" | "0 < - x" by linarith
  then show ?thesis
  proof cases
    case 1
    then show ?thesis by (simp add: rnd_def)
  next
    case 2
    then show ?thesis by (rule rnd_rnd_pos)
  next
    case 3
    from rnd_rnd_pos [OF this] show ?thesis by (simp add: rnd_minus)
  qed
qed

lemma rnd_ge_double:
  assumes d: "rnd d = d" and "0 \<le> d" and "d \<le> y"
  shows "d \<le> rnd y"
proof (cases "d = 0")
  case True
  with assms show ?thesis by (simp add: rnd_nonneg)
next
  case False
  with assms have dpos: "0 < d" and ypos: "0 < y" by simp_all
  define q :: real where "q = 2 powi (expo y - 52)"
  have q: "0 < q" by (simp add: q_def)
  have yb: "in_binade y (expo y)" and bd: "in_binade d (expo d)"
    by (rule expo_binade)+
  have le: "expo d \<le> expo y"
    using bd yb assms(3) by (rule binade_mono)
  have ry: "rnd y = of_int (round_half_even (y / q)) * q"
    unfolding q_def by (rule rnd_pos [OF ypos])
  show ?thesis
  proof (cases "expo d = expo y")
    case True
    define n where "n = round_half_even (d / q)"
    have dn: "d = of_int n * q"
      using rnd_pos [OF dpos] d by (simp add: n_def q_def True)
    then have "of_int n \<le> y / q"
      using assms(3) q by (simp add: field_simps)
    then have "n \<le> round_half_even (y / q)" by (rule rhe_ge)
    then have "of_int n * q \<le> of_int (round_half_even (y / q)) * q"
      using q by simp
    with dn ry show ?thesis by simp
  next
    case False
    with le have lt: "expo d + 1 \<le> expo y" by simp
    with bd yb have "expo d \<noteq> 1024" "expo y \<noteq> - 1022"
      by (auto simp: in_binade_def)
    with bd yb have "d < 2 powi (expo d + 1)" "2 powi expo y \<le> y"
      by (auto simp: in_binade_def)
    moreover have "(2::real) powi (expo d + 1) \<le> 2 powi expo y"
      using lt by (rule p2_mono)
    ultimately have dl: "d < 2 powi expo y" and "q * 2 ^ 52 \<le> y"
      using p2_52 [of "expo y"] by (simp_all add: q_def)
    then have "of_int (2 ^ 52) \<le> y / q" using q by (simp add: field_simps)
    then have "2 ^ 52 \<le> round_half_even (y / q)" by (rule rhe_ge)
    then have "(2::real) ^ 52 \<le> of_int (round_half_even (y / q))"
      by (metis of_int_le_iff of_int_numeral of_int_power)
    then have "q * 2 ^ 52 \<le> q * of_int (round_half_even (y / q))"
      using q by (intro mult_left_mono) simp_all
    moreover have "q * 2 ^ 52 = 2 powi expo y"
      unfolding q_def by (rule p2_52)
    moreover have "rnd y = q * of_int (round_half_even (y / q))"
      by (simp only: ry mult.commute)
    ultimately have "2 powi expo y \<le> rnd y" by linarith
    with dl show ?thesis by simp
  qed
qed


lemma fadd_0: "fadd 0 (rnd x) = rnd x"
  by (simp add: fadd_def rnd_rnd)

lemma fadd_is_double: "rnd (fadd a b) = fadd a b"
  by (simp add: fadd_def rnd_rnd)

lemma fadd_ge:
  assumes "rnd a = a" and "0 \<le> a" and "0 \<le> b"
  shows "a \<le> fadd a b"
  unfolding fadd_def using assms by (intro rnd_ge_double) simp_all

lemma fold_fadd_ge:
  "rnd a = a \<Longrightarrow> 0 \<le> a \<Longrightarrow> \<forall>b \<in> set bs. 0 \<le> b \<Longrightarrow> a \<le> foldl fadd a bs"
proof (induction bs arbitrary: a)
  case Nil
  then show ?case by simp
next
  case (Cons b bs)
  have step: "a \<le> fadd a b"
    using Cons.prems by (intro fadd_ge) simp_all
  have "fadd a b \<le> foldl fadd (fadd a b) bs"
    using Cons.prems step by (intro Cons.IH fadd_is_double) simp_all
  with step show ?case by simp
qed

subsection \<open>The loops, as functions of their inputs\<close>

lemma getitem_Inr_iff: "getitem d k = Inr v \<longleftrightarrow> map_of d k = Some v"
  by (simp add: getitem_def split: option.splits)

lemma map_of_dict_loop:
  "map_of (foldl (\<lambda>d k. AList.update k (f k) d) d0 ks) k =
     (if k \<in> set ks then Some (f k) else map_of d0 k)"
  by (induction ks arbitrary: d0) (auto simp: AList.update_conv')

lemma keys_dict_loop:
  "fst ` set (foldl (\<lambda>d k. AList.update k (f k) d) d0 ks) = fst ` set d0 \<union> set ks"
  by (induction ks arbitrary: d0) (auto simp: AList.dom_update)

lemma distinct_dict_loop:
  "distinct (map fst d0) \<Longrightarrow>
   distinct (map fst (foldl (\<lambda>d k. AList.update k (f k) d) d0 ks))"
  by (induction ks arbitrary: d0) (auto simp: AList.distinct_update)

lemma update_fresh: "k \<notin> fst ` set d \<Longrightarrow> AList.update k v d = d @ [(k, v)]"
  by (induction d) auto

lemma dict_loop_distinct:
  "distinct ks \<Longrightarrow> set ks \<inter> fst ` set d0 = {} \<Longrightarrow>
   foldl (\<lambda>d k. AList.update k (f k) d) d0 ks = d0 @ map (\<lambda>k. (k, f k)) ks"
proof (induction ks arbitrary: d0)
  case Nil
  then show ?case by simp
next
  case (Cons k ks)
  have fresh: "AList.update k (f k) d0 = d0 @ [(k, f k)]"
    using Cons.prems by (intro update_fresh) auto
  have "set ks \<inter> fst ` set (d0 @ [(k, f k)]) = {}"
    using Cons.prems by auto
  with Cons.IH [of "d0 @ [(k, f k)]"] Cons.prems fresh show ?case
    by simp
qed

lemma map_of_image_to_extents:
  "map_of (image_to_extents G b files) img =
     (if img \<in> set files then Some (bounds_to_shape G (b img)) else None)"
  by (simp add: image_to_extents_def map_of_dict_loop)

lemma keys_image_to_extents: "set (map fst (image_to_extents G b files)) = set files"
  using keys_dict_loop [of "\<lambda>img. bounds_to_shape G (b img)" "[]" files]
  by (simp add: image_to_extents_def)

lemma distinct_image_to_extents: "distinct (map fst (image_to_extents G b files))"
  by (simp add: image_to_extents_def distinct_dict_loop)

lemma getitem_image_to_extents:
  "img \<in> set files \<Longrightarrow>
   getitem (image_to_extents G b files) img = Inr (bounds_to_shape G (b img))"
  by (simp add: getitem_Inr_iff map_of_image_to_extents)

lemma intersecting_loop_Inr:
  "\<forall>img \<in> set imgs. getitem exts img = Inr (f img) \<Longrightarrow>
   intersecting_loop G aoi exts acc imgs =
     Inr (acc @ filter (\<lambda>img. intersects G (f img) aoi) imgs)"
  by (induction imgs arbitrary: acc) auto

lemma intersecting_images_extents:
  "intersecting_images G aoi (image_to_extents G b files) =
     Inr (filter (\<lambda>img. intersects G (bounds_to_shape G (b img)) aoi)
            (map fst (image_to_extents G b files)))"
proof -
  have "\<forall>img \<in> set (map fst (image_to_extents G b files)).
          getitem (image_to_extents G b files) img = Inr (bounds_to_shape G (b img))"
    unfolding keys_image_to_extents by (simp add: getitem_image_to_extents)
  then show ?thesis
    unfolding intersecting_images_def by (rule intersecting_loop_Inr [where acc = "[]", simplified])
qed

lemma intersecting_imagesD:
  assumes "intersecting_images G aoi (image_to_extents G b files) = Inr imgs"
  shows "distinct imgs"
    and "set imgs = {img \<in> set files. intersects G (bounds_to_shape G (b img)) aoi}"
    and "\<forall>img \<in> set imgs.
           getitem (image_to_extents G b files) img = Inr (bounds_to_shape G (b img))"
proof -
  have eq: "imgs = filter (\<lambda>img. intersects G (bounds_to_shape G (b img)) aoi)
                     (map fst (image_to_extents G b files))"
    using assms by (simp add: intersecting_images_extents)
  show "distinct imgs"
    unfolding eq using distinct_image_to_extents [of G b files] by (rule distinct_filter)
  show set: "set imgs = {img \<in> set files. intersects G (bounds_to_shape G (b img)) aoi}"
    unfolding eq set_filter keys_image_to_extents ..
  show "\<forall>img \<in> set imgs.
          getitem (image_to_extents G b files) img = Inr (bounds_to_shape G (b img))"
    unfolding set by (simp add: getitem_image_to_extents)
qed

lemma features_of_bbox_loop:
  "foldl (\<lambda>acc feature.
            if intersects G (shape G (geometry feature)) bbox then acc @ [feature] else acc)
     acc fs = acc @ filter (\<lambda>feature. intersects G (shape G (geometry feature)) bbox) fs"
  by (induction fs arbitrary: acc) auto

lemma features_of_bbox_filter:
  "features_of_bbox G bbox fs =
     filter (\<lambda>feature. intersects G (shape G (geometry feature)) bbox) fs"
  by (simp add: features_of_bbox_def features_of_bbox_loop)

lemma image_to_features_loop_Inr:
  "\<forall>img \<in> set imgs. getitem exts img = Inr (f img) \<Longrightarrow>
   image_to_features_loop G exts fs d imgs =
     Inr (foldl (\<lambda>d img. AList.update img (features_of_bbox G (f img) fs) d) d imgs)"
  by (induction imgs arbitrary: d) auto

lemma image_to_features_Inr:
  assumes "\<forall>img \<in> set imgs. getitem exts img = Inr (f img)" and "distinct imgs"
  shows "image_to_features G exts label_js imgs =
           Inr (map (\<lambda>img. (img, features_of_bbox G (f img) (features label_js))) imgs)"
  unfolding image_to_features_def image_to_features_loop_Inr [OF assms(1)]
  using dict_loop_distinct [OF assms(2), of "[]"] by simp

lemma write_labels_loop_Inr:
  "\<forall>img \<in> set imgs. getitem i2f img = Inr (g img) \<Longrightarrow>
   write_labels_loop label_js i2f files imgs =
     Inr (foldl (\<lambda>files img.
                   files(label_file img \<mapsto> make_fc label_js (g img)))
            files imgs)"
  by (induction imgs arbitrary: files) auto

lemma images_to_area_loop_Inr:
  "\<forall>img \<in> set imgs. getitem exts img = Inr (f img) \<Longrightarrow> area G aoi \<noteq> 0 \<Longrightarrow>
   images_to_area_loop G aoi exts d imgs =
     Inr (foldl (\<lambda>d img. AList.update img (coverage_fraction G aoi (f img)) d) d imgs)"
  by (induction imgs arbitrary: d) (auto simp: coverage_fraction_def)

lemma with_keys_Inr:
  "\<forall>x \<in> set xs. k x = Inr (f x) \<Longrightarrow> with_keys k xs = Inr (map (\<lambda>x. (f x, x)) xs)"
  by (induction xs) auto

lemma insort_key_decorated:
  "insort_key fst (f x, x) (map (\<lambda>x. (f x, x)) ys) = map (\<lambda>x. (f x, x)) (insort_key f x ys)"
  by (induction ys) auto

lemma sort_key_decorated:
  "sort_key fst (map (\<lambda>x. (f x, x)) ys) = map (\<lambda>x. (f x, x)) (sort_key f ys)"
  by (induction ys) (auto simp: insort_key_decorated)

lemma sorted_reverse_Inr:
  assumes "\<forall>x \<in> set xs. k x = Inr (f x)"
  shows "sorted_reverse k xs = Inr (rev (sort_key f (rev xs)))"
proof -
  have "sort_key fst (rev (map (\<lambda>x. (f x, x)) xs)) = map (\<lambda>x. (f x, x)) (sort_key f (rev xs))"
    unfolding rev_map by (rule sort_key_decorated)
  then have "map snd (rev (sort_key fst (rev (map (\<lambda>x. (f x, x)) xs)))) = rev (sort_key f (rev xs))"
    by (simp add: rev_map comp_def)
  then show ?thesis
    unfolding sorted_reverse_def with_keys_Inr [OF assms] by simp
qed

lemma split_loop_Inr:
  "\<forall>img \<in> set imgs. getitem areas img = Inr (cov img) \<Longrightarrow>
   split_loop r areas (t, v, acc) imgs =
     Inr (t @ walk_training r cov acc imgs, v @ walk_validation r cov acc imgs,
          foldl fadd acc (map cov (walk_training r cov acc imgs)))"
  by (induction imgs arbitrary: t v acc) auto

lemma getitem_images_to_area:
  assumes "\<forall>img \<in> set imgs. getitem exts img = Inr (f img)" and "area G aoi \<noteq> 0"
  shows "\<exists>areas. images_to_area G aoi exts imgs = Inr areas \<and>
           (\<forall>img \<in> set imgs. getitem areas img = Inr (coverage_fraction G aoi (f img)))"
  unfolding images_to_area_def images_to_area_loop_Inr [OF assms]
  by (simp add: getitem_Inr_iff map_of_dict_loop)

lemma split_train_val_Inr:
  assumes keys: "\<forall>img \<in> set imgs. getitem exts img = Inr (f img)"
    and nz: "area G aoi \<noteq> 0"
    and cov: "cov = (\<lambda>img. coverage_fraction G aoi (f img))"
    and s: "sorted_imgs = rev (sort_key cov (rev imgs))"
  shows "split_train_val G r aoi exts imgs =
           Inr (walk_training r cov 0 sorted_imgs, walk_validation r cov 0 sorted_imgs,
                foldl fadd 0 (map cov (walk_training r cov 0 sorted_imgs)))"
proof -
  from getitem_images_to_area [OF keys nz] obtain areas where
    areas: "images_to_area G aoi exts imgs = Inr areas"
    and get: "\<forall>img \<in> set imgs. getitem areas img = Inr (cov img)"
    unfolding cov by blast
  have sorted: "sorted_reverse (getitem areas) imgs = Inr sorted_imgs"
    unfolding s using get by (rule sorted_reverse_Inr)
  have "\<forall>img \<in> set sorted_imgs. getitem areas img = Inr (cov img)"
    unfolding s using get by simp
  from split_loop_Inr [OF this, of r "[]" "[]" 0] show ?thesis
    by (simp add: split_train_val_def areas sorted)
qed

lemma walk_length:
  "length (walk_training r cov acc xs) + length (walk_validation r cov acc xs) = length xs"
  by (induction xs arbitrary: acc) auto

lemma walk_set:
  "set (walk_training r cov acc xs) \<union> set (walk_validation r cov acc xs) = set xs"
  by (induction xs arbitrary: acc) auto

lemma walk_training_subset: "set (walk_training r cov acc xs) \<subseteq> set xs"
  using walk_set [of r cov acc xs] by blast

lemma walk_validation_subset: "set (walk_validation r cov acc xs) \<subseteq> set xs"
  using walk_set [of r cov acc xs] by blast

lemma walk_distinct:
  "distinct xs \<Longrightarrow>
   distinct (walk_training r cov acc xs) \<and> distinct (walk_validation r cov acc xs) \<and>
   set (walk_training r cov acc xs) \<inter> set (walk_validation r cov acc xs) = {}"
proof (induction xs arbitrary: acc)
  case Nil
  then show ?case by simp
next
  case (Cons x xs)
  from Cons.prems have x: "x \<notin> set xs" and d: "distinct xs" by simp_all
  have nt: "x \<notin> set (walk_training r cov a xs)" for a
    using x walk_training_subset [of r cov a xs] by blast
  have nv: "x \<notin> set (walk_validation r cov a xs)" for a
    using x walk_validation_subset [of r cov a xs] by blast
  show ?case
    using Cons.IH [OF d] nt nv by simp
qed

lemma walk_reached:
  "r \<le> acc \<Longrightarrow> walk_training r cov acc xs = [] \<and> walk_validation r cov acc xs = xs"
  by (induction xs) auto

lemma walk_under:
  "rnd acc = acc \<Longrightarrow> 0 \<le> acc \<Longrightarrow> \<forall>x \<in> set xs. 0 \<le> cov x \<Longrightarrow>
   foldl fadd acc (map cov xs) < r \<Longrightarrow>
   walk_training r cov acc xs = xs \<and> walk_validation r cov acc xs = []"
proof (induction xs arbitrary: acc)
  case Nil
  then show ?case by simp
next
  case (Cons x xs)
  have x: "0 \<le> cov x" using Cons.prems(3) by simp
  have step: "acc \<le> fadd acc (cov x)"
    using Cons.prems(1,2) x by (rule fadd_ge)
  have "fadd acc (cov x) \<le> foldl fadd (fadd acc (cov x)) (map cov xs)"
    using Cons.prems(2,3) step by (intro fold_fadd_ge fadd_is_double) simp_all
  with step Cons.prems(4) have "acc < r" by simp
  moreover have "walk_training r cov (fadd acc (cov x)) xs = xs \<and>
                 walk_validation r cov (fadd acc (cov x)) xs = []"
    using Cons.prems step by (intro Cons.IH fadd_is_double) simp_all
  ultimately show ?case by simp
qed

lemma sorted_descending:
  "sorted_wrt (\<lambda>a b. f b \<le> f a) (rev (sort_key f (rev xs)))"
proof -
  have "sorted (map f (sort_key f (rev xs)))" by (rule sorted_sort_key)
  then have "sorted_wrt (\<lambda>a b. f a \<le> f b) (sort_key f (rev xs))"
    by (simp add: sorted_map)
  then show ?thesis
    by (simp add: sorted_wrt_rev)
qed

lemma stable_descending:
  "filter (\<lambda>y. f y = k) (rev (sort_key f (rev xs))) = filter (\<lambda>y. f y = k) xs"
proof -
  have "filter (\<lambda>y. f y = k) (rev (sort_key f (rev xs))) =
          rev (filter (\<lambda>y. f y = k) (sort_key f (rev xs)))"
    by (simp add: rev_filter)
  also have "\<dots> = rev (filter (\<lambda>y. f y = k) (rev xs))"
    by (simp only: sort_key_stable)
  also have "\<dots> = filter (\<lambda>y. f y = k) xs"
    by (simp add: rev_filter)
  finally show ?thesis .
qed

text \<open>The definitions an example unfolds to run the notebook on the boxes.\<close>

lemmas example_defs =
  image_to_extents_def intersecting_images_def getitem_def bounds_to_shape_def boxes_def
  region_def strip_def bounds_table_def coverage_fraction_def ratio_def
  images_to_area_def sorted_reverse_def split_train_val_def
  fadd_def fdiv_def rnd_def expo_def expo_up.simps expo_down.simps round_half_even_def

subsection \<open>The greedy walk\<close>

text \<open>
  Claim C1. The split cell walks the images sorted by descending coverage fraction with
  an accumulator that starts at \<open>0\<close>: an image goes to training, and its fraction is
  added, if the accumulator before the image is strictly below the ratio; otherwise it
  goes to validation. The cell's result is the result of the walk as the specification
  words it. With fractions \<open>0.5\<close>, \<open>0.3\<close>, \<open>0.2\<close> and ratio \<open>0.8\<close> the
  first two images are the training group and the third is the validation group.
\<close>

theorem split_is_greedy_walk:
  assumes "intersecting_images G aoi (image_to_extents G ds_bounds image_files) = Inr imgs"
    and "area G aoi \<noteq> 0"
    and "cov = (\<lambda>img. coverage_fraction G aoi (bounds_to_shape G (ds_bounds img)))"
    and "sorted_imgs = rev (sort_key cov (rev imgs))"
  shows "sorted_wrt (\<lambda>a b. cov b \<le> cov a) sorted_imgs \<and>
         split_train_val G r aoi (image_to_extents G ds_bounds image_files) imgs =
           Inr (walk_training r cov 0 sorted_imgs, walk_validation r cov 0 sorted_imgs,
                foldl fadd 0 (map cov (walk_training r cov 0 sorted_imgs)))"
proof
  show "sorted_wrt (\<lambda>a b. cov b \<le> cov a) sorted_imgs"
    unfolding assms(4) by (rule sorted_descending)
  show "split_train_val G r aoi (image_to_extents G ds_bounds image_files) imgs =
          Inr (walk_training r cov 0 sorted_imgs, walk_validation r cov 0 sorted_imgs,
               foldl fadd 0 (map cov (walk_training r cov 0 sorted_imgs)))"
    using intersecting_imagesD(3) [OF assms(1)] assms(2-4) by (rule split_train_val_Inr)
qed

text \<open>
  The three fractions are the floats \<open>50 / 100\<close>, \<open>30 / 100\<close> and \<open>20 / 100\<close>. The
  sum of the first two is a tie between two doubles and rounds to the float \<open>0.8\<close>
  itself, which is not below the ratio.
\<close>

theorem split_is_greedy_walk_witness:
  "intersecting_images boxes region
     (image_to_extents boxes
        (bounds_table [(''B.tif'', strip 5 8), (''C.tif'', strip 8 10), (''A.tif'', strip 0 5)])
        [''B.tif'', ''C.tif'', ''A.tif'']) = Inr [''B.tif'', ''C.tif'', ''A.tif''] \<and>
   area boxes region \<noteq> 0 \<and>
   map (\<lambda>img. coverage_fraction boxes region
                (bounds_to_shape boxes
                   (bounds_table
                      [(''B.tif'', strip 5 8), (''C.tif'', strip 8 10), (''A.tif'', strip 0 5)]
                      img)))
     [''A.tif'', ''B.tif'', ''C.tif''] = [rnd (1 / 2), rnd (3 / 10), rnd (1 / 5)] \<and>
   split_train_val boxes ratio region
     (image_to_extents boxes
        (bounds_table [(''B.tif'', strip 5 8), (''C.tif'', strip 8 10), (''A.tif'', strip 0 5)])
        [''B.tif'', ''C.tif'', ''A.tif'']) [''B.tif'', ''C.tif'', ''A.tif''] =
     Inr ([''A.tif'', ''B.tif''], [''C.tif''], 3602879701896397 / 4503599627370496) \<and>
   ratio = 3602879701896397 / 4503599627370496"
proof -
  let ?b = "bounds_table [(''B.tif'', strip 5 8), (''C.tif'', strip 8 10), (''A.tif'', strip 0 5)]"
  let ?cov = "\<lambda>img. coverage_fraction boxes region (bounds_to_shape boxes (?b img))"
  have h: "intersecting_images boxes region
             (image_to_extents boxes ?b [''B.tif'', ''C.tif'', ''A.tif'']) =
           Inr [''B.tif'', ''C.tif'', ''A.tif'']"
    by (simp add: example_defs)
  have nz: "area boxes region \<noteq> 0"
    by (simp add: example_defs)
  have c: "?cov ''A.tif'' = 1 / 2" "?cov ''B.tif'' = 5404319552844595 / 18014398509481984"
    "?cov ''C.tif'' = 3602879701896397 / 18014398509481984"
    by (simp_all add: example_defs)
  have d: "rnd (1 / 2) = 1 / 2" "rnd (3 / 10) = 5404319552844595 / 18014398509481984"
    "rnd (1 / 5) = 3602879701896397 / 18014398509481984"
    by (simp_all add: example_defs)
  have r: "ratio = 3602879701896397 / 4503599627370496"
    by (simp add: example_defs)
  have s: "rev (sort_key ?cov (rev [''B.tif'', ''C.tif'', ''A.tif''])) = [''A.tif'', ''B.tif'', ''C.tif'']"
    by (simp add: c)
  have sum: "fadd (fadd 0 (1 / 2)) (5404319552844595 / 18014398509481984) =
               3602879701896397 / 4503599627370496"
    by (simp add: example_defs)
  from split_is_greedy_walk [OF h nz refl s [symmetric], of ratio] c d h nz r sum show ?thesis
    by (simp add: fadd_def [of 0] d)
qed

text \<open>
  Four strips that cover \<open>0.4\<close>, \<open>0.3\<close>, \<open>0.1\<close> and \<open>0.1\<close> of the region: in
  floats the first three add up to \<open>0.7999999999999999\<close>, below the ratio, so the fourth
  is a training image too, and the total is \<open>0.8999999999999999\<close>.
\<close>

lemma four_strips_all_training:
  "split_train_val boxes ratio region
     (image_to_extents boxes
        (bounds_table [(''a.tif'', strip 0 4), (''b.tif'', strip 4 7), (''c.tif'', strip 7 8),
                       (''d.tif'', strip 8 9)])
        [''a.tif'', ''b.tif'', ''c.tif'', ''d.tif''])
     [''a.tif'', ''b.tif'', ''c.tif'', ''d.tif''] =
     Inr ([''a.tif'', ''b.tif'', ''c.tif'', ''d.tif''], [],
          2026619832316723 / 2251799813685248)"
  by (simp add: example_defs)

text \<open>
  Claim C3. Whatever the ratio, the split cell puts every intersecting image in exactly
  one of the two groups: together they hold all the images, they share none, neither
  repeats one, and their sizes add up to the number of intersecting images.
\<close>

theorem split_partitions_images:
  assumes "intersecting_images G aoi (image_to_extents G ds_bounds image_files) = Inr imgs"
    and "area G aoi \<noteq> 0"
  shows "\<exists>train_imgs val_imgs train_area_covered.
           split_train_val G r aoi (image_to_extents G ds_bounds image_files) imgs =
             Inr (train_imgs, val_imgs, train_area_covered) \<and>
           set train_imgs \<union> set val_imgs = set imgs \<and>
           set train_imgs \<inter> set val_imgs = {} \<and>
           distinct train_imgs \<and> distinct val_imgs \<and>
           length train_imgs + length val_imgs = length imgs"
proof -
  define cov where "cov = (\<lambda>img. coverage_fraction G aoi (bounds_to_shape G (ds_bounds img)))"
  define sorted_imgs where "sorted_imgs = rev (sort_key cov (rev imgs))"
  have split: "split_train_val G r aoi (image_to_extents G ds_bounds image_files) imgs =
                 Inr (walk_training r cov 0 sorted_imgs, walk_validation r cov 0 sorted_imgs,
                      foldl fadd 0 (map cov (walk_training r cov 0 sorted_imgs)))"
    using intersecting_imagesD(3) [OF assms(1)] assms(2) cov_def sorted_imgs_def
    by (rule split_train_val_Inr)
  have "distinct sorted_imgs" "set sorted_imgs = set imgs" "length sorted_imgs = length imgs"
    using intersecting_imagesD(1) [OF assms(1)] by (simp_all add: sorted_imgs_def)
  with walk_set [of r cov 0 sorted_imgs] walk_distinct [of sorted_imgs r cov 0]
    walk_length [of r cov 0 sorted_imgs] split
  show ?thesis by simp
qed

theorem split_partitions_images_witness:
  "intersecting_images boxes region
     (image_to_extents boxes
        (bounds_table [(''a.tif'', strip 0 3), (''b.tif'', strip 2 9), (''c.tif'', strip 9 10)])
        [''a.tif'', ''b.tif'', ''c.tif'', ''d.tif'']) = Inr [''a.tif'', ''b.tif'', ''c.tif''] \<and>
   area boxes region \<noteq> 0 \<and>
   split_train_val boxes ratio region
     (image_to_extents boxes
        (bounds_table [(''a.tif'', strip 0 3), (''b.tif'', strip 2 9), (''c.tif'', strip 9 10)])
        [''a.tif'', ''b.tif'', ''c.tif'', ''d.tif'']) [''a.tif'', ''b.tif'', ''c.tif''] =
     Inr ([''b.tif'', ''a.tif''], [''c.tif''], 1)"
proof -
  let ?b = "bounds_table [(''a.tif'', strip 0 3), (''b.tif'', strip 2 9), (''c.tif'', strip 9 10)]"
  let ?exts = "image_to_extents boxes ?b [''a.tif'', ''b.tif'', ''c.tif'', ''d.tif'']"
  have h: "intersecting_images boxes region ?exts = Inr [''a.tif'', ''b.tif'', ''c.tif'']"
    by (simp add: example_defs)
  have nz: "area boxes region \<noteq> 0"
    by (simp add: example_defs)
  have "split_train_val boxes ratio region ?exts [''a.tif'', ''b.tif'', ''c.tif''] =
          Inr ([''b.tif'', ''a.tif''], [''c.tif''], 1)"
    by (simp add: example_defs)
  with split_partitions_images [OF h nz, of ratio] h nz show ?thesis
    by simp
qed

text \<open>
  Claim C6, as the code has it. When the coverage fractions are not negative and their
  total is below the ratio, every image is in the training group and the validation
  group is empty, provided the total is the one the walk computes: the fractions added
  one by one in the sorted order, each sum rounded to a float. So it is for three images
  that cover a tenth of the region each, at ratio \<open>0.8\<close>. The exact sum of the
  fractions can be below the ratio while the rounded one reaches it, as the example
  after the theorem shows.
\<close>

theorem under_ratio_all_training:
  assumes "intersecting_images G aoi (image_to_extents G ds_bounds image_files) = Inr imgs"
    and "area G aoi \<noteq> 0"
    and "cov = (\<lambda>img. coverage_fraction G aoi (bounds_to_shape G (ds_bounds img)))"
    and "sorted_imgs = rev (sort_key cov (rev imgs))"
    and "\<forall>img \<in> set imgs. 0 \<le> cov img"
    and "foldl fadd 0 (map cov sorted_imgs) < r"
  shows "split_train_val G r aoi (image_to_extents G ds_bounds image_files) imgs =
           Inr (sorted_imgs, [], foldl fadd 0 (map cov sorted_imgs)) \<and>
         set sorted_imgs = set imgs \<and> length sorted_imgs = length imgs"
proof -
  have split: "split_train_val G r aoi (image_to_extents G ds_bounds image_files) imgs =
                 Inr (walk_training r cov 0 sorted_imgs, walk_validation r cov 0 sorted_imgs,
                      foldl fadd 0 (map cov (walk_training r cov 0 sorted_imgs)))"
    using intersecting_imagesD(3) [OF assms(1)] assms(2-4)
    by (rule split_train_val_Inr)
  have "rnd 0 = 0" by (simp add: rnd_def)
  moreover have "(0::real) \<le> 0" by simp
  moreover have "\<forall>img \<in> set sorted_imgs. 0 \<le> cov img"
    using assms(5) by (simp add: assms(4))
  ultimately have "walk_training r cov 0 sorted_imgs = sorted_imgs \<and>
                   walk_validation r cov 0 sorted_imgs = []"
    using assms(6) by (rule walk_under)
  with split show ?thesis
    by (simp add: assms(4))
qed

theorem under_ratio_all_training_witness:
  "intersecting_images boxes region
     (image_to_extents boxes
        (bounds_table [(''a.tif'', strip 0 1), (''b.tif'', strip 4 5), (''c.tif'', strip 7 8)])
        [''a.tif'', ''b.tif'', ''c.tif'']) = Inr [''a.tif'', ''b.tif'', ''c.tif''] \<and>
   area boxes region \<noteq> 0 \<and>
   map (\<lambda>img. coverage_fraction boxes region
                (bounds_to_shape boxes
                   (bounds_table
                      [(''a.tif'', strip 0 1), (''b.tif'', strip 4 5), (''c.tif'', strip 7 8)]
                      img)))
     [''a.tif'', ''b.tif'', ''c.tif''] = [rnd (1 / 10), rnd (1 / 10), rnd (1 / 10)] \<and>
   foldl fadd 0 [rnd (1 / 10), rnd (1 / 10), rnd (1 / 10)] =
     1351079888211149 / 4503599627370496 \<and>
   1351079888211149 / 4503599627370496 < ratio \<and>
   split_train_val boxes ratio region
     (image_to_extents boxes
        (bounds_table [(''a.tif'', strip 0 1), (''b.tif'', strip 4 5), (''c.tif'', strip 7 8)])
        [''a.tif'', ''b.tif'', ''c.tif'']) [''a.tif'', ''b.tif'', ''c.tif''] =
     Inr ([''a.tif'', ''b.tif'', ''c.tif''], [], 1351079888211149 / 4503599627370496)"
proof -
  let ?b = "bounds_table [(''a.tif'', strip 0 1), (''b.tif'', strip 4 5), (''c.tif'', strip 7 8)]"
  let ?exts = "image_to_extents boxes ?b [''a.tif'', ''b.tif'', ''c.tif'']"
  let ?cov = "\<lambda>img. coverage_fraction boxes region (bounds_to_shape boxes (?b img))"
  let ?tenth = "3602879701896397 / 36028797018963968 :: real"
  have h: "intersecting_images boxes region ?exts = Inr [''a.tif'', ''b.tif'', ''c.tif'']"
    by (simp add: example_defs)
  have nz: "area boxes region \<noteq> 0"
    by (simp add: example_defs)
  have d: "rnd (1 / 10) = ?tenth"
    by (simp add: example_defs)
  have c: "?cov ''a.tif'' = ?tenth" "?cov ''b.tif'' = ?tenth" "?cov ''c.tif'' = ?tenth"
    by (simp_all add: example_defs)
  have s: "rev (sort_key ?cov (rev [''a.tif'', ''b.tif'', ''c.tif''])) =
             [''a.tif'', ''b.tif'', ''c.tif'']"
    by (simp add: c)
  have nonneg: "\<forall>img \<in> set [''a.tif'', ''b.tif'', ''c.tif'']. 0 \<le> ?cov img"
    by (simp add: c)
  have sum: "foldl fadd 0 [?tenth, ?tenth, ?tenth] = 1351079888211149 / 4503599627370496"
    by (simp add: example_defs)
  have r: "ratio = 3602879701896397 / 4503599627370496"
    by (simp add: example_defs)
  have total_eq: "foldl fadd 0 (map ?cov [''a.tif'', ''b.tif'', ''c.tif'']) =
                    1351079888211149 / 4503599627370496"
    by (simp only: list.map c sum)
  have below: "1351079888211149 / 4503599627370496 < ratio"
    by (simp add: r)
  have total: "foldl fadd 0 (map ?cov [''a.tif'', ''b.tif'', ''c.tif'']) < ratio"
    unfolding total_eq by (rule below)
  have fractions: "map ?cov [''a.tif'', ''b.tif'', ''c.tif''] =
                     [rnd (1 / 10), rnd (1 / 10), rnd (1 / 10)]"
    by (simp only: list.map c d)
  have rounded: "foldl fadd 0 [rnd (1 / 10), rnd (1 / 10), rnd (1 / 10)] =
                   1351079888211149 / 4503599627370496"
    by (simp only: d sum)
  have "split_train_val boxes ratio region ?exts [''a.tif'', ''b.tif'', ''c.tif''] =
          Inr ([''a.tif'', ''b.tif'', ''c.tif''], [], 1351079888211149 / 4503599627370496)"
    using under_ratio_all_training [OF h nz refl s [symmetric] nonneg total]
    by (simp only: total_eq)
  with h nz fractions rounded below show ?thesis
    by (intro conjI)
qed

text \<open>
  Three images that cover \<open>0.5\<close>, \<open>0.3\<close> and, touching the region along an edge,
  \<open>0\<close> of it. As reals the three floats add up to less than the float \<open>0.8\<close>, but the
  float sum of the first two is the float \<open>0.8\<close>: the third image is a validation image.
\<close>

theorem touching_image_in_validation:
  "intersecting_images boxes region
     (image_to_extents boxes
        (bounds_table [(''A.tif'', strip 0 5), (''B.tif'', strip 5 8), (''Z.tif'', strip 10 12)])
        [''A.tif'', ''B.tif'', ''Z.tif'']) = Inr [''A.tif'', ''B.tif'', ''Z.tif''] \<and>
   map (\<lambda>img. coverage_fraction boxes region
                (bounds_to_shape boxes
                   (bounds_table
                      [(''A.tif'', strip 0 5), (''B.tif'', strip 5 8), (''Z.tif'', strip 10 12)]
                      img)))
     [''A.tif'', ''B.tif'', ''Z.tif''] = [1 / 2, 5404319552844595 / 18014398509481984, 0] \<and>
   sum_list [1 / 2, 5404319552844595 / 18014398509481984, 0] < ratio \<and>
   split_train_val boxes ratio region
     (image_to_extents boxes
        (bounds_table [(''A.tif'', strip 0 5), (''B.tif'', strip 5 8), (''Z.tif'', strip 10 12)])
        [''A.tif'', ''B.tif'', ''Z.tif'']) [''A.tif'', ''B.tif'', ''Z.tif''] =
     Inr ([''A.tif'', ''B.tif''], [''Z.tif''], ratio)"
proof -
  let ?b = "bounds_table [(''A.tif'', strip 0 5), (''B.tif'', strip 5 8), (''Z.tif'', strip 10 12)]"
  let ?exts = "image_to_extents boxes ?b [''A.tif'', ''B.tif'', ''Z.tif'']"
  have h: "intersecting_images boxes region ?exts = Inr [''A.tif'', ''B.tif'', ''Z.tif'']"
    by (simp add: example_defs)
  have c: "map (\<lambda>img. coverage_fraction boxes region (bounds_to_shape boxes (?b img)))
             [''A.tif'', ''B.tif'', ''Z.tif''] =
           [1 / 2, 5404319552844595 / 18014398509481984, 0]"
    by (simp add: example_defs)
  have r: "ratio = 3602879701896397 / 4503599627370496"
    by (simp add: example_defs)
  have less: "sum_list [1 / 2, 5404319552844595 / 18014398509481984, 0] < ratio"
    by (simp add: r)
  have "split_train_val boxes ratio region ?exts [''A.tif'', ''B.tif'', ''Z.tif''] =
          Inr ([''A.tif'', ''B.tif''], [''Z.tif''], 3602879701896397 / 4503599627370496)"
    by (simp add: example_defs)
  with h c less r show ?thesis
    by simp
qed

text \<open>
  Claim C7. When the first image of the sorted order alone covers at least the ratio,
  it is the whole training group and all the others are the validation group; a single
  image that covers the whole region is alone in training, with nothing in validation.
\<close>

theorem dominant_first_scene:
  assumes "intersecting_images G aoi (image_to_extents G ds_bounds image_files) = Inr imgs"
    and "area G aoi \<noteq> 0"
    and "cov = (\<lambda>img. coverage_fraction G aoi (bounds_to_shape G (ds_bounds img)))"
    and "rev (sort_key cov (rev imgs)) = first # others"
    and "0 < r" and "r \<le> cov first"
  shows "split_train_val G r aoi (image_to_extents G ds_bounds image_files) imgs =
           Inr ([first], others, cov first)"
proof -
  have split: "split_train_val G r aoi (image_to_extents G ds_bounds image_files) imgs =
                 Inr (walk_training r cov 0 (first # others),
                      walk_validation r cov 0 (first # others),
                      foldl fadd 0 (map cov (walk_training r cov 0 (first # others))))"
    using intersecting_imagesD(3) [OF assms(1)] assms(2,3) assms(4) [symmetric]
    by (rule split_train_val_Inr)
  have first: "fadd 0 (cov first) = cov first"
    unfolding assms(3) coverage_fraction_def fdiv_def by (rule fadd_0)
  have "walk_training r cov (fadd 0 (cov first)) others = [] \<and>
        walk_validation r cov (fadd 0 (cov first)) others = others"
    using assms(6) by (intro walk_reached) (simp add: first)
  with split assms(5) first show ?thesis
    by simp
qed

theorem dominant_first_scene_witness:
  "intersecting_images boxes region
     (image_to_extents boxes (bounds_table [(''X.tif'', strip 0 10)]) [''X.tif'']) =
     Inr [''X.tif''] \<and>
   area boxes region \<noteq> 0 \<and>
   coverage_fraction boxes region
     (bounds_to_shape boxes (bounds_table [(''X.tif'', strip 0 10)] ''X.tif'')) = 1 \<and>
   0 < ratio \<and> ratio \<le> 1 \<and>
   split_train_val boxes ratio region
     (image_to_extents boxes (bounds_table [(''X.tif'', strip 0 10)]) [''X.tif'']) [''X.tif''] =
     Inr ([''X.tif''], [], 1)"
proof -
  let ?b = "bounds_table [(''X.tif'', strip 0 10)]"
  let ?cov = "\<lambda>img. coverage_fraction boxes region (bounds_to_shape boxes (?b img))"
  have h: "intersecting_images boxes region (image_to_extents boxes ?b [''X.tif'']) =
             Inr [''X.tif'']"
    by (simp add: example_defs)
  have nz: "area boxes region \<noteq> 0"
    by (simp add: example_defs)
  have s: "rev (sort_key ?cov (rev [''X.tif''])) = [''X.tif'']"
    by simp
  have c: "?cov ''X.tif'' = 1"
    by (simp add: example_defs)
  have r: "0 < ratio" "ratio \<le> ?cov ''X.tif''"
    unfolding c by (simp_all add: example_defs)
  from dominant_first_scene [OF h nz refl s r] h nz c r show ?thesis
    by simp
qed

subsection \<open>The label files\<close>

lemma getitem_pairs: "k \<in> set ks \<Longrightarrow> getitem (map (\<lambda>k. (k, f k)) ks) k = Inr (f k)"
  by (induction ks) (auto simp: getitem_def)

lemma image_to_features_intersecting:
  assumes "intersecting_images G aoi (image_to_extents G ds_bounds image_files) = Inr imgs"
  shows "image_to_features G (image_to_extents G ds_bounds image_files) label_js imgs =
           Inr (map (\<lambda>img. (img, features_of_bbox G (bounds_to_shape G (ds_bounds img))
                                    (features label_js))) imgs)"
  using intersecting_imagesD(3) [OF assms] intersecting_imagesD(1) [OF assms]
  by (rule image_to_features_Inr)

lemma write_labels_pairs:
  "write_labels label_js (map (\<lambda>img. (img, g img)) imgs) =
     Inr (foldl (\<lambda>files img. files(label_file img \<mapsto> make_fc label_js (g img)))
            Map.empty imgs)"
proof -
  have "\<forall>img \<in> set imgs. getitem (map (\<lambda>img. (img, g img)) imgs) img = Inr (g img)"
    by (simp add: getitem_pairs)
  from write_labels_loop_Inr [OF this] show ?thesis
    by (simp add: write_labels_def comp_def)
qed

lemma files_loop_other:
  "q \<notin> p ` set ks \<Longrightarrow> foldl (\<lambda>files k. files(p k \<mapsto> v k)) m ks q = m q"
  by (induction ks arbitrary: m) auto

lemma files_loop_dom:
  "dom (foldl (\<lambda>files k. files(p k \<mapsto> v k)) m ks) = dom m \<union> p ` set ks"
  by (induction ks arbitrary: m) auto

lemma files_loop_Some:
  "foldl (\<lambda>files k. files(p k \<mapsto> v k)) m ks q = Some c \<Longrightarrow>
   m q = Some c \<or> (\<exists>k \<in> set ks. q = p k \<and> c = v k)"
proof (induction ks arbitrary: m)
  case Nil
  then show ?case by simp
next
  case (Cons k ks)
  from Cons.prems have "foldl (\<lambda>files k. files(p k \<mapsto> v k)) (m(p k \<mapsto> v k)) ks q = Some c"
    by (simp only: foldl.simps)
  from Cons.IH [OF this] show ?case
    by (auto split: if_splits)
qed

lemma files_loop_inj:
  "inj_on p (set ks) \<Longrightarrow> k \<in> set ks \<Longrightarrow>
   foldl (\<lambda>files k. files(p k \<mapsto> v k)) m ks (p k) = Some (v k)"
proof (induction ks arbitrary: m)
  case Nil
  then show ?case by simp
next
  case (Cons x xs)
  have step: "foldl (\<lambda>files k. files(p k \<mapsto> v k)) m (x # xs) =
              foldl (\<lambda>files k. files(p k \<mapsto> v k)) (m(p x \<mapsto> v x)) xs"
    by (simp only: foldl.simps)
  show ?case
  proof (cases "k \<in> set xs")
    case True
    moreover have "inj_on p (set xs)"
      using Cons.prems(1) by (auto simp: inj_on_def)
    ultimately show ?thesis
      unfolding step by (rule Cons.IH [rotated])
  next
    case False
    with Cons.prems have kx: "k = x" by simp
    have "p k \<notin> p ` set xs"
      using Cons.prems False by (auto simp: inj_on_def)
    from files_loop_other [OF this, of v "m(p x \<mapsto> v x)"] show ?thesis
      unfolding step by (simp add: kx)
  qed
qed

lemma basename_no_slash: "CHR ''/'' \<notin> set (basename p)"
  by (auto simp: basename_def dest: set_takeWhileD)

lemma splitext_root_subset: "set (fst (splitext p)) \<subseteq> set p"
  by (auto simp: splitext_def Let_def dest: in_set_takeD)

lemma label_name_hd: "hd (label_name img) \<noteq> CHR ''/''"
proof (cases "fst (splitext (basename img))")
  case Nil
  then show ?thesis by (simp add: label_name_def)
next
  case (Cons c cs)
  then have "c \<in> set (basename img)"
    using splitext_root_subset [of "basename img"] by auto
  with basename_no_slash [of img] have "c \<noteq> CHR ''/''" by auto
  with Cons show ?thesis by (simp add: label_name_def)
qed

lemma label_file_append: "label_file img = processed_labels_dir @ label_name img"
  by (simp add: label_file_def path_join_def label_name_hd) (simp add: processed_labels_dir_def)

lemma label_file_inj: "distinct (map label_name imgs) \<Longrightarrow> inj_on label_file (set imgs)"
  by (auto simp: distinct_map inj_on_def label_file_append)

lemma add_class_geometry: "geometry (add_class feature) = geometry feature"
  by (simp add: add_class_def)

lemma getitem_add_class:
  "getitem (properties (add_class feature)) k =
     (if k = ''class_name'' then Inr (JStr ''building'')
      else if k = ''class_id'' then Inr (JInt 1)
      else getitem (properties feature) k)"
  by (simp add: add_class_def getitem_def AList.update_conv')

lemma features_add_classes: "features (add_classes label_js) = map add_class (features label_js)"
  by (simp add: add_classes_def)

lemma run_label_files:
  assumes "intersecting_images G aoi (image_to_extents G ds_bounds image_files) = Inr imgs"
    and "image_to_features G (image_to_extents G ds_bounds image_files)
           (add_classes label_js) imgs = Inr i2f"
    and "write_labels (add_classes label_js) i2f = Inr files"
    and "run G ds_bounds aoi label_js image_files = Inr out"
  shows "label_files out = files"
  using assms by (auto simp: run_def Let_def split: sum.splits prod.splits)

lemma label_stage:
  fixes G :: "('j, 'g) shapely"
  assumes "intersecting_images G aoi (image_to_extents G ds_bounds image_files) = Inr imgs"
    and "feats = (\<lambda>img. features_of_bbox G (bounds_to_shape G (ds_bounds img)) (features label_js))"
    and "i2f = map (\<lambda>img. (img, feats img)) imgs"
    and "files = foldl (\<lambda>files img. files(label_file img \<mapsto> make_fc label_js (feats img)))
                   Map.empty imgs"
  shows "image_to_features G (image_to_extents G ds_bounds image_files) label_js imgs = Inr i2f"
    and "write_labels label_js i2f = Inr files"
    and "\<forall>img \<in> set imgs. getitem i2f img = Inr (feats img)"
    and "\<forall>fc \<in> ran files. \<exists>img \<in> set imgs. fc = make_fc label_js (feats img)"
    and "dom files = label_file ` set imgs"
    and "distinct (map label_name imgs) \<Longrightarrow>
         \<forall>img \<in> set imgs. files (label_file img) = Some (make_fc label_js (feats img))"
proof -
  show "image_to_features G (image_to_extents G ds_bounds image_files) label_js imgs = Inr i2f"
    unfolding assms(2,3) using assms(1) by (rule image_to_features_intersecting)
  show "write_labels label_js i2f = Inr files"
    unfolding assms(3,4) by (rule write_labels_pairs)
  show "\<forall>img \<in> set imgs. getitem i2f img = Inr (feats img)"
    unfolding assms(3) by (simp add: getitem_pairs)
  show "\<forall>fc \<in> ran files. \<exists>img \<in> set imgs. fc = make_fc label_js (feats img)"
  proof
    fix fc assume "fc \<in> ran files"
    then obtain q where "files q = Some fc" by (auto simp: ran_def)
    from files_loop_Some [OF this [unfolded assms(4)]]
    show "\<exists>img \<in> set imgs. fc = make_fc label_js (feats img)" by auto
  qed
  show "dom files = label_file ` set imgs"
    unfolding assms(4) by (simp add: files_loop_dom)
  show "\<forall>img \<in> set imgs. files (label_file img) = Some (make_fc label_js (feats img))"
    if "distinct (map label_name imgs)"
    unfolding assms(4)
    using files_loop_inj [where p = label_file and m = Map.empty
        and v = "\<lambda>img. make_fc label_js (feats img)", OF label_file_inj [OF that]]
    by blast
qed

lemmas label_example_defs =
  example_defs image_to_features_def features_of_bbox_def building_def labels_def
  add_classes_def add_class_def write_labels_def make_fc_def

text \<open>
  Claim C2. For every intersecting image \<open>s\<close> and every feature \<open>f\<close> of the label
  collection, \<open>f\<close> is in the list \<^verbatim>\<open>image_to_features[s]\<close> if and only if the
  geometry of \<open>f\<close> intersects the bounding polygon of \<open>s\<close>; a feature that
  intersects several bounding polygons is therefore in the list of each of them.
\<close>

theorem features_iff_intersects:
  fixes G :: "('j, 'g) shapely"
  assumes "intersecting_images G aoi (image_to_extents G ds_bounds image_files) = Inr imgs"
  shows "\<exists>i2f. image_to_features G (image_to_extents G ds_bounds image_files) label_js imgs =
                 Inr i2f \<and>
               map fst i2f = imgs \<and>
               (\<forall>s \<in> set imgs. \<exists>fs.
                  getitem i2f s = Inr fs \<and> set fs \<subseteq> set (features label_js) \<and>
                  (\<forall>f \<in> set (features label_js).
                     f \<in> set fs \<longleftrightarrow>
                     intersects G (shape G (geometry f)) (bounds_to_shape G (ds_bounds s))))"
proof -
  define feats where
    "feats = (\<lambda>img. features_of_bbox G (bounds_to_shape G (ds_bounds img)) (features label_js))"
  have "image_to_features G (image_to_extents G ds_bounds image_files) label_js imgs =
          Inr (map (\<lambda>img. (img, feats img)) imgs)"
    unfolding feats_def using assms by (rule image_to_features_intersecting)
  moreover have "map fst (map (\<lambda>img. (img, feats img)) imgs) = imgs"
    by (simp add: comp_def)
  moreover have "\<forall>s \<in> set imgs. \<exists>fs.
      getitem (map (\<lambda>img. (img, feats img)) imgs) s = Inr fs \<and>
      set fs \<subseteq> set (features label_js) \<and>
      (\<forall>f \<in> set (features label_js).
         f \<in> set fs \<longleftrightarrow>
         intersects G (shape G (geometry f)) (bounds_to_shape G (ds_bounds s)))"
  proof
    fix s assume "s \<in> set imgs"
    then have "getitem (map (\<lambda>img. (img, feats img)) imgs) s = Inr (feats s)"
      by (rule getitem_pairs)
    moreover have "set (feats s) \<subseteq> set (features label_js)"
      by (simp add: feats_def features_of_bbox_filter)
    moreover have "\<forall>f \<in> set (features label_js).
        f \<in> set (feats s) \<longleftrightarrow>
        intersects G (shape G (geometry f)) (bounds_to_shape G (ds_bounds s))"
      by (simp add: feats_def features_of_bbox_filter)
    ultimately show "\<exists>fs.
      getitem (map (\<lambda>img. (img, feats img)) imgs) s = Inr fs \<and>
      set fs \<subseteq> set (features label_js) \<and>
      (\<forall>f \<in> set (features label_js).
         f \<in> set fs \<longleftrightarrow>
         intersects G (shape G (geometry f)) (bounds_to_shape G (ds_bounds s)))"
      by blast
  qed
  ultimately show ?thesis by blast
qed

theorem features_iff_intersects_witness:
  "intersecting_images boxes region
     (image_to_extents boxes
        (bounds_table [(''A.tif'', strip 0 5), (''B.tif'', strip 5 8), (''C.tif'', strip 8 10)])
        [''A.tif'', ''B.tif'', ''C.tif'']) = Inr [''A.tif'', ''B.tif'', ''C.tif''] \<and>
   image_to_features boxes
     (image_to_extents boxes
        (bounds_table [(''A.tif'', strip 0 5), (''B.tif'', strip 5 8), (''C.tif'', strip 8 10)])
        [''A.tif'', ''B.tif'', ''C.tif''])
     (labels [building 1 2 [], building 4 6 []]) [''A.tif'', ''B.tif'', ''C.tif''] =
     Inr [(''A.tif'', [building 1 2 [], building 4 6 []]), (''B.tif'', [building 4 6 []]),
          (''C.tif'', [])]"
proof -
  let ?b = "bounds_table [(''A.tif'', strip 0 5), (''B.tif'', strip 5 8), (''C.tif'', strip 8 10)]"
  let ?exts = "image_to_extents boxes ?b [''A.tif'', ''B.tif'', ''C.tif'']"
  have h: "intersecting_images boxes region ?exts = Inr [''A.tif'', ''B.tif'', ''C.tif'']"
    by (simp add: example_defs)
  have "image_to_features boxes ?exts (labels [building 1 2 [], building 4 6 []])
          [''A.tif'', ''B.tif'', ''C.tif''] =
        Inr [(''A.tif'', [building 1 2 [], building 4 6 []]), (''B.tif'', [building 4 6 []]),
             (''C.tif'', [])]"
    by (simp add: label_example_defs)
  with features_iff_intersects [OF h, of "labels [building 1 2 [], building 4 6 []]"] h
  show ?thesis by simp
qed

text \<open>
  Claim C8. Every feature of every per-image label collection, in the dictionary
  \<^verbatim>\<open>image_to_features\<close> and in every label file written, has \<open>class_id = 1\<close> and
  \<open>class_name = "building"\<close>; it is a feature of the raw collection with the two
  properties set once, for the whole collection, before the per-image loop, and the loop
  changes no feature.
\<close>

theorem class_properties_in_label_files:
  fixes G :: "('j, 'g) shapely"
  assumes "intersecting_images G aoi (image_to_extents G ds_bounds image_files) = Inr imgs"
  shows "\<exists>i2f files.
           image_to_features G (image_to_extents G ds_bounds image_files)
             (add_classes label_js) imgs = Inr i2f \<and>
           write_labels (add_classes label_js) i2f = Inr files \<and>
           (\<forall>out. run G ds_bounds aoi label_js image_files = Inr out \<longrightarrow>
                  label_files out = files) \<and>
           (\<forall>img \<in> set imgs. \<exists>fs. getitem i2f img = Inr fs \<and>
              (\<forall>f \<in> set fs.
                 getitem (properties f) ''class_id'' = Inr (JInt 1) \<and>
                 getitem (properties f) ''class_name'' = Inr (JStr ''building'') \<and>
                 f \<in> add_class ` set (features label_js))) \<and>
           (\<forall>fc \<in> ran files. \<forall>f \<in> set (features fc).
              getitem (properties f) ''class_id'' = Inr (JInt 1) \<and>
              getitem (properties f) ''class_name'' = Inr (JStr ''building'') \<and>
              f \<in> add_class ` set (features label_js))"
proof -
  define feats where
    "feats = (\<lambda>img. features_of_bbox G (bounds_to_shape G (ds_bounds img))
                      (features (add_classes label_js)))"
  define i2f where "i2f = map (\<lambda>img. (img, feats img)) imgs"
  define files where
    "files = foldl (\<lambda>files img.
                      files(label_file img \<mapsto> make_fc (add_classes label_js) (feats img)))
               Map.empty imgs"
  note stage = label_stage [OF assms feats_def i2f_def files_def]
  have good: "getitem (properties f) ''class_id'' = Inr (JInt 1) \<and>
              getitem (properties f) ''class_name'' = Inr (JStr ''building'') \<and>
              f \<in> add_class ` set (features label_js)"
    if "f \<in> set (feats img)" for f img
  proof -
    from that have "f \<in> add_class ` set (features label_js)"
      by (auto simp: feats_def features_of_bbox_filter features_add_classes)
    then show ?thesis
      by (auto simp: getitem_add_class)
  qed
  have "\<forall>img \<in> set imgs. \<exists>fs. getitem i2f img = Inr fs \<and>
          (\<forall>f \<in> set fs.
             getitem (properties f) ''class_id'' = Inr (JInt 1) \<and>
             getitem (properties f) ''class_name'' = Inr (JStr ''building'') \<and>
             f \<in> add_class ` set (features label_js))"
    using stage(3) good by blast
  moreover have "\<forall>fc \<in> ran files. \<forall>f \<in> set (features fc).
          getitem (properties f) ''class_id'' = Inr (JInt 1) \<and>
          getitem (properties f) ''class_name'' = Inr (JStr ''building'') \<and>
          f \<in> add_class ` set (features label_js)"
  proof (intro ballI)
    fix fc f assume "fc \<in> ran files" and f: "f \<in> set (features fc)"
    with stage(4) obtain img where "fc = make_fc (add_classes label_js) (feats img)"
      by blast
    with f have "f \<in> set (feats img)" by (simp add: make_fc_def)
    then show "getitem (properties f) ''class_id'' = Inr (JInt 1) \<and>
               getitem (properties f) ''class_name'' = Inr (JStr ''building'') \<and>
               f \<in> add_class ` set (features label_js)"
      by (rule good)
  qed
  moreover have "\<forall>out. run G ds_bounds aoi label_js image_files = Inr out \<longrightarrow>
                   label_files out = files"
    using run_label_files [OF assms stage(1) stage(2)] by blast
  ultimately show ?thesis
    using stage(1,2) by blast
qed

theorem class_properties_in_label_files_witness:
  "intersecting_images boxes region
     (image_to_extents boxes
        (bounds_table [(''A.tif'', strip 0 5), (''B.tif'', strip 5 10)])
        [''A.tif'', ''B.tif'']) = Inr [''A.tif'', ''B.tif''] \<and>
   image_to_features boxes
     (image_to_extents boxes
        (bounds_table [(''A.tif'', strip 0 5), (''B.tif'', strip 5 10)])
        [''A.tif'', ''B.tif''])
     (add_classes (labels [building 1 2 [(''class_id'', JInt 7)], building 4 6 []]))
     [''A.tif'', ''B.tif''] =
     Inr [(''A.tif'',
           [building 1 2 [(''class_id'', JInt 1), (''class_name'', JStr ''building'')],
            building 4 6 [(''class_id'', JInt 1), (''class_name'', JStr ''building'')]]),
          (''B.tif'',
           [building 4 6 [(''class_id'', JInt 1), (''class_name'', JStr ''building'')]])]"
proof -
  let ?b = "bounds_table [(''A.tif'', strip 0 5), (''B.tif'', strip 5 10)]"
  let ?exts = "image_to_extents boxes ?b [''A.tif'', ''B.tif'']"
  let ?raw = "labels [building 1 2 [(''class_id'', JInt 7)], building 4 6 []]"
  have h: "intersecting_images boxes region ?exts = Inr [''A.tif'', ''B.tif'']"
    by (simp add: example_defs)
  have "image_to_features boxes ?exts (add_classes ?raw) [''A.tif'', ''B.tif''] =
     Inr [(''A.tif'',
           [building 1 2 [(''class_id'', JInt 1), (''class_name'', JStr ''building'')],
            building 4 6 [(''class_id'', JInt 1), (''class_name'', JStr ''building'')]]),
          (''B.tif'',
           [building 4 6 [(''class_id'', JInt 1), (''class_name'', JStr ''building'')]])]"
    by (simp add: label_example_defs)
  with class_properties_in_label_files [OF h, of ?raw] h
  show ?thesis by simp
qed

lemma crs_add_classes: "crs (add_classes label_js) = crs label_js"
  by (simp add: add_classes_def)

text \<open>
  Claim C9. Every label file written has type \<open>FeatureCollection\<close> and the \<open>crs\<close>
  of the label collection read, unchanged. Each of its features is a feature of the raw
  collection with the same geometry, nothing clipped, and the same properties except for
  \<open>class_id\<close> and \<open>class_name\<close>. A feature that intersects the bounding polygons of
  two images is, as one and the same value, in the lists of both.
\<close>

theorem label_collections_keep_input:
  fixes G :: "('j, 'g) shapely"
  assumes "intersecting_images G aoi (image_to_extents G ds_bounds image_files) = Inr imgs"
  shows "\<exists>i2f files.
           image_to_features G (image_to_extents G ds_bounds image_files)
             (add_classes label_js) imgs = Inr i2f \<and>
           write_labels (add_classes label_js) i2f = Inr files \<and>
           (\<forall>out. run G ds_bounds aoi label_js image_files = Inr out \<longrightarrow>
                  label_files out = files) \<and>
           (\<forall>fc \<in> ran files.
              type fc = ''FeatureCollection'' \<and> crs fc = crs label_js \<and>
              (\<forall>f \<in> set (features fc). \<exists>raw \<in> set (features label_js).
                 f = add_class raw \<and> geometry f = geometry raw \<and>
                 (\<forall>k. k \<noteq> ''class_id'' \<longrightarrow> k \<noteq> ''class_name'' \<longrightarrow>
                    getitem (properties f) k = getitem (properties raw) k))) \<and>
           (\<forall>f \<in> set (features (add_classes label_js)). \<forall>s1 \<in> set imgs. \<forall>s2 \<in> set imgs.
              intersects G (shape G (geometry f)) (bounds_to_shape G (ds_bounds s1)) \<longrightarrow>
              intersects G (shape G (geometry f)) (bounds_to_shape G (ds_bounds s2)) \<longrightarrow>
              (\<exists>fs1 fs2. getitem i2f s1 = Inr fs1 \<and> getitem i2f s2 = Inr fs2 \<and>
                 f \<in> set fs1 \<and> f \<in> set fs2))"
proof -
  define feats where
    "feats = (\<lambda>img. features_of_bbox G (bounds_to_shape G (ds_bounds img))
                      (features (add_classes label_js)))"
  define i2f where "i2f = map (\<lambda>img. (img, feats img)) imgs"
  define files where
    "files = foldl (\<lambda>files img.
                      files(label_file img \<mapsto> make_fc (add_classes label_js) (feats img)))
               Map.empty imgs"
  note stage = label_stage [OF assms feats_def i2f_def files_def]
  have raw: "\<exists>raw \<in> set (features label_js).
               f = add_class raw \<and> geometry f = geometry raw \<and>
               (\<forall>k. k \<noteq> ''class_id'' \<longrightarrow> k \<noteq> ''class_name'' \<longrightarrow>
                  getitem (properties f) k = getitem (properties raw) k)"
    if "f \<in> set (feats img)" for f img
  proof -
    from that obtain raw where "raw \<in> set (features label_js)" and "f = add_class raw"
      by (auto simp: feats_def features_of_bbox_filter features_add_classes)
    then show ?thesis
      by (auto simp: add_class_geometry getitem_add_class)
  qed
  have files: "\<forall>fc \<in> ran files.
      type fc = ''FeatureCollection'' \<and> crs fc = crs label_js \<and>
      (\<forall>f \<in> set (features fc). \<exists>raw \<in> set (features label_js).
         f = add_class raw \<and> geometry f = geometry raw \<and>
         (\<forall>k. k \<noteq> ''class_id'' \<longrightarrow> k \<noteq> ''class_name'' \<longrightarrow>
            getitem (properties f) k = getitem (properties raw) k))"
  proof
    fix fc assume "fc \<in> ran files"
    with stage(4) obtain img where fc: "fc = make_fc (add_classes label_js) (feats img)"
      by blast
    then have "type fc = ''FeatureCollection''" "crs fc = crs label_js"
      "features fc = feats img"
      by (simp_all add: make_fc_def crs_add_classes)
    with raw [of _ img] show "type fc = ''FeatureCollection'' \<and> crs fc = crs label_js \<and>
      (\<forall>f \<in> set (features fc). \<exists>raw \<in> set (features label_js).
         f = add_class raw \<and> geometry f = geometry raw \<and>
         (\<forall>k. k \<noteq> ''class_id'' \<longrightarrow> k \<noteq> ''class_name'' \<longrightarrow>
            getitem (properties f) k = getitem (properties raw) k))"
      by simp
  qed
  have both: "\<forall>f \<in> set (features (add_classes label_js)). \<forall>s1 \<in> set imgs. \<forall>s2 \<in> set imgs.
      intersects G (shape G (geometry f)) (bounds_to_shape G (ds_bounds s1)) \<longrightarrow>
      intersects G (shape G (geometry f)) (bounds_to_shape G (ds_bounds s2)) \<longrightarrow>
      (\<exists>fs1 fs2. getitem i2f s1 = Inr fs1 \<and> getitem i2f s2 = Inr fs2 \<and>
         f \<in> set fs1 \<and> f \<in> set fs2)"
  proof (intro ballI impI)
    fix f s1 s2
    assume f: "f \<in> set (features (add_classes label_js))"
      and s: "s1 \<in> set imgs" "s2 \<in> set imgs"
      and i: "intersects G (shape G (geometry f)) (bounds_to_shape G (ds_bounds s1))"
             "intersects G (shape G (geometry f)) (bounds_to_shape G (ds_bounds s2))"
    from f i have "f \<in> set (feats s1)" "f \<in> set (feats s2)"
      by (simp_all add: feats_def features_of_bbox_filter)
    with stage(3) s show "\<exists>fs1 fs2. getitem i2f s1 = Inr fs1 \<and> getitem i2f s2 = Inr fs2 \<and>
         f \<in> set fs1 \<and> f \<in> set fs2"
      by blast
  qed
  have "\<forall>out. run G ds_bounds aoi label_js image_files = Inr out \<longrightarrow>
          label_files out = files"
    using run_label_files [OF assms stage(1) stage(2)] by blast
  with files both stage(1,2) show ?thesis
    by blast
qed

theorem label_collections_keep_input_witness:
  "intersecting_images boxes region
     (image_to_extents boxes
        (bounds_table [(''A.tif'', strip 0 5), (''B.tif'', strip 5 10)])
        [''A.tif'', ''B.tif'']) = Inr [''A.tif'', ''B.tif''] \<and>
   image_to_features boxes
     (image_to_extents boxes
        (bounds_table [(''A.tif'', strip 0 5), (''B.tif'', strip 5 10)])
        [''A.tif'', ''B.tif''])
     (add_classes (labels [building 4 6 [(''id'', JInt 3)]])) [''A.tif'', ''B.tif''] =
     Inr [(''A.tif'', [add_class (building 4 6 [(''id'', JInt 3)])]),
          (''B.tif'', [add_class (building 4 6 [(''id'', JInt 3)])])] \<and>
   write_labels (add_classes (labels [building 4 6 [(''id'', JInt 3)]]))
     [(''A.tif'', [add_class (building 4 6 [(''id'', JInt 3)])]),
      (''B.tif'', [add_class (building 4 6 [(''id'', JInt 3)])])] =
     Inr [label_file ''A.tif'' \<mapsto>
            \<lparr>type = ''FeatureCollection'', crs = JStr ''EPSG:4326'',
               features = [add_class (building 4 6 [(''id'', JInt 3)])]\<rparr>,
          label_file ''B.tif'' \<mapsto>
            \<lparr>type = ''FeatureCollection'', crs = JStr ''EPSG:4326'',
               features = [add_class (building 4 6 [(''id'', JInt 3)])]\<rparr>] \<and>
   add_class (building 4 6 [(''id'', JInt 3)]) =
     building 4 6 [(''id'', JInt 3), (''class_id'', JInt 1), (''class_name'', JStr ''building'')]"
proof -
  let ?b = "bounds_table [(''A.tif'', strip 0 5), (''B.tif'', strip 5 10)]"
  let ?exts = "image_to_extents boxes ?b [''A.tif'', ''B.tif'']"
  let ?raw = "labels [building 4 6 [(''id'', JInt 3)]]"
  let ?f = "add_class (building 4 6 [(''id'', JInt 3)])"
  have h: "intersecting_images boxes region ?exts = Inr [''A.tif'', ''B.tif'']"
    by (simp add: example_defs)
  have f: "?f = building 4 6 [(''id'', JInt 3), (''class_id'', JInt 1),
                              (''class_name'', JStr ''building'')]"
    by (simp add: add_class_def building_def)
  have i2f: "image_to_features boxes ?exts (add_classes ?raw) [''A.tif'', ''B.tif''] =
               Inr [(''A.tif'', [?f]), (''B.tif'', [?f])]"
    unfolding f by (simp add: label_example_defs)
  have files: "write_labels (add_classes ?raw) [(''A.tif'', [?f]), (''B.tif'', [?f])] =
     Inr [label_file ''A.tif'' \<mapsto>
            \<lparr>type = ''FeatureCollection'', crs = JStr ''EPSG:4326'', features = [?f]\<rparr>,
          label_file ''B.tif'' \<mapsto>
            \<lparr>type = ''FeatureCollection'', crs = JStr ''EPSG:4326'', features = [?f]\<rparr>]"
    by (simp add: write_labels_def getitem_def make_fc_def add_classes_def labels_def)
  from label_collections_keep_input [OF h, of ?raw] h i2f files f show ?thesis
    by simp
qed

text \<open>
  Claim C10, as the code has it. Every intersecting image gets an entry in
  \<^verbatim>\<open>image_to_features\<close>, with the empty list when no feature intersects its bounding
  polygon, and one write, to the file named by the image's base name without extension.
  The files written are exactly the label paths of the intersecting images. When these
  names are pairwise distinct, images and files correspond one to one and each file
  holds its image's collection, an empty one included. Two images with the same base
  name share one file, as the example after the theorem shows.
\<close>

theorem label_file_per_image:
  fixes G :: "('j, 'g) shapely"
  assumes "intersecting_images G aoi (image_to_extents G ds_bounds image_files) = Inr imgs"
  shows "\<exists>i2f files.
           image_to_features G (image_to_extents G ds_bounds image_files)
             (add_classes label_js) imgs = Inr i2f \<and>
           write_labels (add_classes label_js) i2f = Inr files \<and>
           (\<forall>out. run G ds_bounds aoi label_js image_files = Inr out \<longrightarrow>
                  label_files out = files) \<and>
           map fst i2f = imgs \<and>
           (\<forall>img \<in> set imgs.
              (\<forall>f \<in> set (features label_js).
                 \<not> intersects G (shape G (geometry f)) (bounds_to_shape G (ds_bounds img))) \<longrightarrow>
              getitem i2f img = Inr []) \<and>
           dom files = label_file ` set imgs \<and>
           (distinct (map label_name imgs) \<longrightarrow>
              bij_betw label_file (set imgs) (dom files) \<and>
              card (dom files) = length imgs \<and>
              (\<forall>img \<in> set imgs. \<exists>fs.
                 getitem i2f img = Inr fs \<and>
                 files (label_file img) =
                   Some \<lparr>type = ''FeatureCollection'', crs = crs label_js, features = fs\<rparr>))"
proof -
  define feats where
    "feats = (\<lambda>img. features_of_bbox G (bounds_to_shape G (ds_bounds img))
                      (features (add_classes label_js)))"
  define i2f where "i2f = map (\<lambda>img. (img, feats img)) imgs"
  define files where
    "files = foldl (\<lambda>files img.
                      files(label_file img \<mapsto> make_fc (add_classes label_js) (feats img)))
               Map.empty imgs"
  note stage = label_stage [OF assms feats_def i2f_def files_def]
  have keys: "map fst i2f = imgs"
    by (simp add: i2f_def comp_def)
  have none: "\<forall>img \<in> set imgs.
      (\<forall>f \<in> set (features label_js).
         \<not> intersects G (shape G (geometry f)) (bounds_to_shape G (ds_bounds img))) \<longrightarrow>
      getitem i2f img = Inr []"
  proof (intro ballI impI)
    fix img
    assume img: "img \<in> set imgs"
      and no: "\<forall>f \<in> set (features label_js).
                 \<not> intersects G (shape G (geometry f)) (bounds_to_shape G (ds_bounds img))"
    from no have "feats img = []"
      by (simp add: feats_def features_of_bbox_filter features_add_classes
          filter_empty_conv add_class_geometry)
    with stage(3) img show "getitem i2f img = Inr []" by simp
  qed
  have one: "bij_betw label_file (set imgs) (dom files) \<and>
      card (dom files) = length imgs \<and>
      (\<forall>img \<in> set imgs. \<exists>fs.
         getitem i2f img = Inr fs \<and>
         files (label_file img) =
           Some \<lparr>type = ''FeatureCollection'', crs = crs label_js, features = fs\<rparr>)"
    if names: "distinct (map label_name imgs)"
  proof -
    have inj: "inj_on label_file (set imgs)"
      using names by (rule label_file_inj)
    then have "bij_betw label_file (set imgs) (dom files)"
      unfolding stage(5) by (rule inj_on_imp_bij_betw)
    moreover have "card (dom files) = length imgs"
      unfolding stage(5) using inj intersecting_imagesD(1) [OF assms]
      by (simp add: card_image distinct_card)
    moreover have "\<forall>img \<in> set imgs. \<exists>fs.
         getitem i2f img = Inr fs \<and>
         files (label_file img) =
           Some \<lparr>type = ''FeatureCollection'', crs = crs label_js, features = fs\<rparr>"
      using stage(3) stage(6) [OF names] by (simp add: make_fc_def crs_add_classes)
    ultimately show ?thesis by blast
  qed
  have "\<forall>out. run G ds_bounds aoi label_js image_files = Inr out \<longrightarrow>
          label_files out = files"
    using run_label_files [OF assms stage(1) stage(2)] by blast
  with keys none one stage(1,2,5) show ?thesis
    by blast
qed

theorem label_file_per_image_witness:
  "intersecting_images boxes region
     (image_to_extents boxes
        (bounds_table [(''s3://d/A.tif'', strip 0 5), (''s3://d/B.tif'', strip 5 10)])
        [''s3://d/A.tif'', ''s3://d/B.tif'']) = Inr [''s3://d/A.tif'', ''s3://d/B.tif''] \<and>
   distinct (map label_name [''s3://d/A.tif'', ''s3://d/B.tif'']) \<and>
   image_to_features boxes
     (image_to_extents boxes
        (bounds_table [(''s3://d/A.tif'', strip 0 5), (''s3://d/B.tif'', strip 5 10)])
        [''s3://d/A.tif'', ''s3://d/B.tif''])
     (add_classes (labels [building 1 2 []])) [''s3://d/A.tif'', ''s3://d/B.tif''] =
     Inr [(''s3://d/A.tif'', [add_class (building 1 2 [])]), (''s3://d/B.tif'', [])] \<and>
   write_labels (add_classes (labels [building 1 2 []]))
     [(''s3://d/A.tif'', [add_class (building 1 2 [])]), (''s3://d/B.tif'', [])] =
     Inr [''/opt/data/spacenet/rio/processed_labels/A.geojson'' \<mapsto>
            \<lparr>type = ''FeatureCollection'', crs = JStr ''EPSG:4326'',
               features = [add_class (building 1 2 [])]\<rparr>,
          ''/opt/data/spacenet/rio/processed_labels/B.geojson'' \<mapsto>
            \<lparr>type = ''FeatureCollection'', crs = JStr ''EPSG:4326'', features = []\<rparr>]"
proof -
  let ?b = "bounds_table [(''s3://d/A.tif'', strip 0 5), (''s3://d/B.tif'', strip 5 10)]"
  let ?exts = "image_to_extents boxes ?b [''s3://d/A.tif'', ''s3://d/B.tif'']"
  let ?raw = "labels [building 1 2 []]"
  let ?f = "add_class (building 1 2 [])"
  have h: "intersecting_images boxes region ?exts = Inr [''s3://d/A.tif'', ''s3://d/B.tif'']"
    by (simp add: example_defs)
  have names: "label_name ''s3://d/A.tif'' = ''A.geojson''"
    "label_name ''s3://d/B.tif'' = ''B.geojson''"
    by (simp_all add: label_name_def splitext_def basename_def)
  have paths: "label_file ''s3://d/A.tif'' = ''/opt/data/spacenet/rio/processed_labels/A.geojson''"
    "label_file ''s3://d/B.tif'' = ''/opt/data/spacenet/rio/processed_labels/B.geojson''"
    by (simp_all add: label_file_append names processed_labels_dir_def)
  have f: "?f = building 1 2 [(''class_id'', JInt 1), (''class_name'', JStr ''building'')]"
    by (simp add: add_class_def building_def)
  have i2f: "image_to_features boxes ?exts (add_classes ?raw)
               [''s3://d/A.tif'', ''s3://d/B.tif''] =
             Inr [(''s3://d/A.tif'', [?f]), (''s3://d/B.tif'', [])]"
    unfolding f by (simp add: label_example_defs)
  have files: "write_labels (add_classes ?raw)
                 [(''s3://d/A.tif'', [?f]), (''s3://d/B.tif'', [])] =
     Inr [''/opt/data/spacenet/rio/processed_labels/A.geojson'' \<mapsto>
            \<lparr>type = ''FeatureCollection'', crs = JStr ''EPSG:4326'', features = [?f]\<rparr>,
          ''/opt/data/spacenet/rio/processed_labels/B.geojson'' \<mapsto>
            \<lparr>type = ''FeatureCollection'', crs = JStr ''EPSG:4326'', features = []\<rparr>]"
    by (simp add: write_labels_def getitem_def make_fc_def add_classes_def labels_def paths)
  from label_file_per_image [OF h, of ?raw] h i2f files names show ?thesis
    by simp
qed

text \<open>
  Two intersecting images in different directories, both called \<^verbatim>\<open>x.tif\<close>: one label
  file is left, and it holds the collection of the second image.
\<close>

theorem label_files_collide:
  "intersecting_images boxes region
     (image_to_extents boxes
        (bounds_table [(''s3://d/1/x.tif'', strip 0 5), (''s3://d/2/x.tif'', strip 5 10)])
        [''s3://d/1/x.tif'', ''s3://d/2/x.tif'']) =
     Inr [''s3://d/1/x.tif'', ''s3://d/2/x.tif''] \<and>
   image_to_features boxes
     (image_to_extents boxes
        (bounds_table [(''s3://d/1/x.tif'', strip 0 5), (''s3://d/2/x.tif'', strip 5 10)])
        [''s3://d/1/x.tif'', ''s3://d/2/x.tif''])
     (add_classes (labels [building 1 2 []])) [''s3://d/1/x.tif'', ''s3://d/2/x.tif''] =
     Inr [(''s3://d/1/x.tif'', [add_class (building 1 2 [])]), (''s3://d/2/x.tif'', [])] \<and>
   write_labels (add_classes (labels [building 1 2 []]))
     [(''s3://d/1/x.tif'', [add_class (building 1 2 [])]), (''s3://d/2/x.tif'', [])] =
     Inr [''/opt/data/spacenet/rio/processed_labels/x.geojson'' \<mapsto>
            \<lparr>type = ''FeatureCollection'', crs = JStr ''EPSG:4326'', features = []\<rparr>]"
proof -
  let ?b = "bounds_table [(''s3://d/1/x.tif'', strip 0 5), (''s3://d/2/x.tif'', strip 5 10)]"
  let ?exts = "image_to_extents boxes ?b [''s3://d/1/x.tif'', ''s3://d/2/x.tif'']"
  let ?raw = "labels [building 1 2 []]"
  let ?f = "add_class (building 1 2 [])"
  have h: "intersecting_images boxes region ?exts = Inr [''s3://d/1/x.tif'', ''s3://d/2/x.tif'']"
    by (simp add: example_defs)
  have names: "label_name ''s3://d/1/x.tif'' = ''x.geojson''"
    "label_name ''s3://d/2/x.tif'' = ''x.geojson''"
    by (simp_all add: label_name_def splitext_def basename_def)
  have paths: "label_file ''s3://d/1/x.tif'' = ''/opt/data/spacenet/rio/processed_labels/x.geojson''"
    "label_file ''s3://d/2/x.tif'' = ''/opt/data/spacenet/rio/processed_labels/x.geojson''"
    by (simp_all add: label_file_append names processed_labels_dir_def)
  have f: "?f = building 1 2 [(''class_id'', JInt 1), (''class_name'', JStr ''building'')]"
    by (simp add: add_class_def building_def)
  have i2f: "image_to_features boxes ?exts (add_classes ?raw)
               [''s3://d/1/x.tif'', ''s3://d/2/x.tif''] =
             Inr [(''s3://d/1/x.tif'', [?f]), (''s3://d/2/x.tif'', [])]"
    unfolding f by (simp add: label_example_defs)
  have files: "write_labels (add_classes ?raw)
                 [(''s3://d/1/x.tif'', [?f]), (''s3://d/2/x.tif'', [])] =
     Inr [''/opt/data/spacenet/rio/processed_labels/x.geojson'' \<mapsto>
            \<lparr>type = ''FeatureCollection'', crs = JStr ''EPSG:4326'', features = []\<rparr>]"
    by (simp add: write_labels_def getitem_def make_fc_def add_classes_def labels_def paths)
  from h i2f files show ?thesis
    by simp
qed

subsection \<open>No image meets the region\<close>

text \<open>
  Claim C4, as the code has it. When no image's bounding polygon intersects the region,
  the list of intersecting images is empty and the notebook runs to its end without an
  error: it writes no label file and writes both scene lists, each of them empty.
\<close>

theorem no_intersection_empty_outputs:
  fixes G :: "('j, 'g) shapely"
  assumes "\<forall>img \<in> set image_files. \<not> intersects G (bounds_to_shape G (ds_bounds img)) aoi"
  shows "intersecting_images G aoi (image_to_extents G ds_bounds image_files) = Inr [] \<and>
         run G ds_bounds aoi label_js image_files =
           Inr \<lparr>label_files = Map.empty, training_scenes_csv = [], val_scenes_csv = []\<rparr>"
proof -
  have "filter (\<lambda>img. intersects G (bounds_to_shape G (ds_bounds img)) aoi)
          (map fst (image_to_extents G ds_bounds image_files)) = []"
    unfolding filter_empty_conv keys_image_to_extents using assms by blast
  then have none: "intersecting_images G aoi (image_to_extents G ds_bounds image_files) = Inr []"
    by (simp only: intersecting_images_extents)
  have "run G ds_bounds aoi label_js image_files =
          Inr \<lparr>label_files = Map.empty, training_scenes_csv = [], val_scenes_csv = []\<rparr>"
    unfolding run_def Let_def none
    by (simp add: image_to_features_def write_labels_def split_train_val_def
        images_to_area_def sorted_reverse_def scenes_csv_def)
  with none show ?thesis by blast
qed

theorem no_intersection_empty_outputs_witness:
  "\<not> intersects boxes (bounds_to_shape boxes (strip 20 30)) region \<and>
   \<not> intersects boxes (bounds_to_shape boxes (strip 12 15)) region \<and>
   run boxes (bounds_table [(''b.tif'', strip 12 15)]) region (labels [building 1 2 []])
     [''a.tif'', ''b.tif''] =
     Inr \<lparr>label_files = Map.empty, training_scenes_csv = [], val_scenes_csv = []\<rparr>"
proof -
  let ?b = "bounds_table [(''b.tif'', strip 12 15)]"
  have far: "\<not> intersects boxes (bounds_to_shape boxes (strip 20 30)) region"
    "\<not> intersects boxes (bounds_to_shape boxes (strip 12 15)) region"
    by (simp_all add: example_defs)
  have b: "?b ''a.tif'' = strip 20 30" "?b ''b.tif'' = strip 12 15"
    by (simp_all add: bounds_table_def)
  have "\<forall>img \<in> set [''a.tif'', ''b.tif''].
          \<not> intersects boxes (bounds_to_shape boxes (?b img)) region"
    using far by (simp add: b)
  from no_intersection_empty_outputs [OF this, of "labels [building 1 2 []]"] far
  show ?thesis by simp
qed

text \<open>
  One image, away from the region: the run succeeds and both scene lists are the empty
  string.
\<close>

theorem empty_manifests_written:
  "intersecting_images boxes region
     (image_to_extents boxes (bounds_table [(''far.tif'', strip 20 30)]) [''far.tif'']) =
     Inr [] \<and>
   run boxes (bounds_table [(''far.tif'', strip 20 30)]) region (labels [building 1 2 []])
     [''far.tif''] =
     Inr \<lparr>label_files = Map.empty, training_scenes_csv = [], val_scenes_csv = []\<rparr>"
  by (simp add: run_def label_example_defs scenes_csv_def)

subsection \<open>The order of the sorted images\<close>

text \<open>
  Claim C5, as the code has it. Before the walk the intersecting images are sorted by
  descending coverage fraction. The sort is stable and has no second key: images with
  equal fractions stay in the order they have in the list of intersecting images.
\<close>

theorem sort_descending_stable:
  fixes G :: "('j, 'g) shapely"
  assumes "intersecting_images G aoi (image_to_extents G ds_bounds image_files) = Inr imgs"
    and "area G aoi \<noteq> 0"
    and "cov = (\<lambda>img. coverage_fraction G aoi (bounds_to_shape G (ds_bounds img)))"
  shows "\<exists>areas sorted_imgs.
           images_to_area G aoi (image_to_extents G ds_bounds image_files) imgs = Inr areas \<and>
           (\<forall>img \<in> set imgs. getitem areas img = Inr (cov img)) \<and>
           sorted_reverse (getitem areas) imgs = Inr sorted_imgs \<and>
           sorted_wrt (\<lambda>a b. cov b \<le> cov a) sorted_imgs \<and>
           set sorted_imgs = set imgs \<and> length sorted_imgs = length imgs \<and>
           (\<forall>c. filter (\<lambda>img. cov img = c) sorted_imgs = filter (\<lambda>img. cov img = c) imgs)"
proof -
  from getitem_images_to_area [OF intersecting_imagesD(3) [OF assms(1)] assms(2)]
  obtain areas where
    areas: "images_to_area G aoi (image_to_extents G ds_bounds image_files) imgs = Inr areas"
    and get: "\<forall>img \<in> set imgs. getitem areas img = Inr (cov img)"
    unfolding assms(3) by blast
  define sorted_imgs where "sorted_imgs = rev (sort_key cov (rev imgs))"
  have "sorted_reverse (getitem areas) imgs = Inr sorted_imgs"
    unfolding sorted_imgs_def using get by (rule sorted_reverse_Inr)
  moreover have "sorted_wrt (\<lambda>a b. cov b \<le> cov a) sorted_imgs"
    unfolding sorted_imgs_def by (rule sorted_descending)
  moreover have "set sorted_imgs = set imgs" "length sorted_imgs = length imgs"
    by (simp_all add: sorted_imgs_def)
  moreover have "\<forall>c. filter (\<lambda>img. cov img = c) sorted_imgs = filter (\<lambda>img. cov img = c) imgs"
    unfolding sorted_imgs_def by (simp add: stable_descending)
  ultimately show ?thesis
    using areas get by blast
qed

theorem sort_descending_stable_witness:
  "intersecting_images boxes region
     (image_to_extents boxes
        (bounds_table [(''b.tif'', strip 0 3), (''c.tif'', strip 3 8), (''a.tif'', strip 7 10)])
        [''b.tif'', ''c.tif'', ''a.tif'']) = Inr [''b.tif'', ''c.tif'', ''a.tif''] \<and>
   area boxes region \<noteq> 0 \<and>
   images_to_area boxes region
     (image_to_extents boxes
        (bounds_table [(''b.tif'', strip 0 3), (''c.tif'', strip 3 8), (''a.tif'', strip 7 10)])
        [''b.tif'', ''c.tif'', ''a.tif'']) [''b.tif'', ''c.tif'', ''a.tif''] =
     Inr [(''b.tif'', rnd (3 / 10)), (''c.tif'', 1 / 2), (''a.tif'', rnd (3 / 10))] \<and>
   sorted_reverse (getitem [(''b.tif'', rnd (3 / 10)), (''c.tif'', 1 / 2), (''a.tif'', rnd (3 / 10))])
     [''b.tif'', ''c.tif'', ''a.tif''] = Inr [''c.tif'', ''b.tif'', ''a.tif'']"
proof -
  let ?b = "bounds_table [(''b.tif'', strip 0 3), (''c.tif'', strip 3 8), (''a.tif'', strip 7 10)]"
  let ?exts = "image_to_extents boxes ?b [''b.tif'', ''c.tif'', ''a.tif'']"
  have h: "intersecting_images boxes region ?exts = Inr [''b.tif'', ''c.tif'', ''a.tif'']"
    by (simp add: example_defs)
  have nz: "area boxes region \<noteq> 0"
    by (simp add: example_defs)
  have areas: "images_to_area boxes region ?exts [''b.tif'', ''c.tif'', ''a.tif''] =
                 Inr [(''b.tif'', rnd (3 / 10)), (''c.tif'', 1 / 2), (''a.tif'', rnd (3 / 10))]"
    by (simp add: example_defs)
  have "sorted_reverse (getitem [(''b.tif'', rnd (3 / 10)), (''c.tif'', 1 / 2), (''a.tif'', rnd (3 / 10))])
          [''b.tif'', ''c.tif'', ''a.tif''] = Inr [''c.tif'', ''b.tif'', ''a.tif'']"
    by (simp add: example_defs)
  with sort_descending_stable [OF h nz refl] h nz areas show ?thesis
    by simp
qed

text \<open>
  Two images that both cover the whole region, listed as \<^verbatim>\<open>b.tif\<close>, \<^verbatim>\<open>a.tif\<close>:
  the sorted order is the listed one, not the ascending order of the names, and
  \<^verbatim>\<open>b.tif\<close> is the training image.
\<close>

theorem ties_keep_list_order:
  "intersecting_images boxes region
     (image_to_extents boxes
        (bounds_table [(''b.tif'', strip 0 10), (''a.tif'', strip 0 10)])
        [''b.tif'', ''a.tif'']) = Inr [''b.tif'', ''a.tif''] \<and>
   images_to_area boxes region
     (image_to_extents boxes
        (bounds_table [(''b.tif'', strip 0 10), (''a.tif'', strip 0 10)])
        [''b.tif'', ''a.tif'']) [''b.tif'', ''a.tif''] =
     Inr [(''b.tif'', 1), (''a.tif'', 1)] \<and>
   sorted_reverse (getitem [(''b.tif'', 1), (''a.tif'', 1)]) [''b.tif'', ''a.tif''] =
     Inr [''b.tif'', ''a.tif''] \<and>
   ''a.tif'' < ''b.tif'' \<and>
   split_train_val boxes ratio region
     (image_to_extents boxes
        (bounds_table [(''b.tif'', strip 0 10), (''a.tif'', strip 0 10)])
        [''b.tif'', ''a.tif'']) [''b.tif'', ''a.tif''] =
     Inr ([''b.tif''], [''a.tif''], 1)"
  by (simp add: example_defs)

end
